theory Spec2Isabelle
  imports Main "HOL-Library.Word"
begin

section \<open>Data model of the driver tracker\<close>

text \<open>
  The elaborated design is owned by the compiler front end. The tracker only reads a few
  attributes of each symbol, expression and hierarchical reference; the records below hold
  exactly those attributes. The field \<open>addr\<close> stands for the identity of the C++ object, so
  that comparing two records compares the pointers.
\<close>

datatype SymbolKind =
    Net | Variable | ClassProperty | Field | FormalArgument | Iterator | PatternVar
  | ClockVarKind | LocalAssertionVar | ModportPort | Port | MultiPort | InterfacePort
  | Instance | InstanceBody | ProceduralBlock | SubroutineKind | OtherSymbol

datatype VariableLifetime = Automatic | Static

datatype NetKind = Wire | UWire | UserDefined | OtherNetKind

datatype ArgumentDirection = In | Out | InOut | Ref

datatype DriverKind = Procedural | Continuous

datatype DriverFlags = Initializer | InputPort | OutputPort | ClockVar

datatype DriverSource =
    Initial | Final | Always | AlwaysComb | AlwaysLatch | AlwaysFF | Subroutine | Other

type_synonym SourceLocation = nat

record SourceRange =
  startLoc :: SourceLocation
  endLoc :: SourceLocation

record NetType =
  netKind :: NetKind
  hasResolutionFunction :: bool
  netTypeName :: string

record Symbol =
  addr :: nat
  kind :: SymbolKind
  name :: string
  location :: SourceLocation
  procedureKind :: DriverSource
  hierarchicalPath :: string

text \<open>
  A value symbol adds what \<open>addDriver\<close> asks of it: whether the declared type is a class
  type, \<open>getType().getSelectableWidth()\<close>, whether \<open>getInitializer()\<close> is non-null, the
  lifetime (read for variables), the net type (read for nets) and the symbol of the parent
  scope.
\<close>

record ValueSymbol = Symbol +
  isClass :: bool
  selectableWidth :: "64 word"
  hasInitializer :: bool
  lifetime :: VariableLifetime
  netType :: NetType
  parentScope :: Symbol

datatype Selector = IndexSel int | RangeSel int int | NameSel string

text \<open>
  A hierarchical reference. \<open>isViaIfacePort\<close> says that the first path element is an
  interface port; \<open>portScope\<close> and \<open>portConnection\<close> then describe that port: the symbol of
  its parent scope, and the hierarchical reference of its connection expression when that
  expression exists and is an \<open>ArbitrarySymbol\<close> expression. Port connections lead from an
  instance to its parent, so the chain of connections is finite.
\<close>

datatype HierarchicalReference = HierarchicalReference
  (target: "Symbol option")
  (hasExpr: bool)
  (path: "(string \<times> Selector) list")
  (isViaIfacePort: bool)
  (portScope: Symbol)
  (portConnection: "HierarchicalReference option")

datatype RangeSelectionKind = Simple | IndexedUp | IndexedDown

datatype Expression =
    NamedValueExpression ValueSymbol SourceRange
  | HierarchicalValueExpression ValueSymbol HierarchicalReference SourceRange
  | ElementSelectExpression Expression Expression SourceRange
  | RangeSelectExpression RangeSelectionKind Expression Expression Expression SourceRange
  | MemberAccessExpression Expression string SourceRange
  | AssignmentExpression Expression Expression SourceRange
  | OtherExpression nat SourceRange

type_synonym DriverBitRange = "64 word \<times> 64 word"

record ValueDriver =
  prefixExpression :: Expression
  containingSymbol :: Symbol
  procCallExpression :: "Expression option"
  flags :: "DriverFlags set"
  driverKind :: DriverKind
  source :: DriverSource
  isFromSideEffect :: bool


text \<open>
  The constructor \<open>ValueDriver(kind, lsp, containingSymbol, flags)\<close> and the small
  queries of the class are declared in the header of the tracker.
\<close>

definition sourceOfSymbol :: "Symbol \<Rightarrow> DriverSource" where
  \<comment> \<open>Modelled from the spec: the header that defines how the constructor fills \<open>source\<close>
      is missing; \<open>source\<close> is the syntactic origin of the driver: the kind of the enclosing
      procedural block, \<open>Subroutine\<close> inside a subroutine, \<open>Other\<close> elsewhere.\<close>
  "sourceOfSymbol c =
     (if kind c = ProceduralBlock then procedureKind c
      else if kind c = SubroutineKind then Subroutine
      else Other)"

definition newValueDriver ::
  "DriverKind \<Rightarrow> Expression \<Rightarrow> Symbol \<Rightarrow> DriverFlags set \<Rightarrow> ValueDriver" where
  \<comment> \<open>Modelled from the spec: the constructor of \<open>ValueDriver\<close> (header missing) stores
      its four arguments; a fresh driver has no procedural call expression and is not from
      a side effect.\<close>
  "newValueDriver k lsp c fl =
     \<lparr> prefixExpression = lsp, containingSymbol = c, procCallExpression = None,
       flags = fl, driverKind = k, source = sourceOfSymbol c, isFromSideEffect = False \<rparr>"

definition has :: "DriverFlags set \<Rightarrow> DriverFlags set \<Rightarrow> bool" where
  \<comment> \<open>Modelled from the spec: \<open>bitmask::has\<close> (header missing) tests whether any bit of
      the mask is set.\<close>
  "has fl m = (fl \<inter> m \<noteq> {})"

definition isInputPort :: "ValueDriver \<Rightarrow> bool" where
  \<comment> \<open>Modelled from the spec: (header missing) the driver carries the flag \<open>InputPort\<close>.\<close>
  "isInputPort d = has (flags d) {InputPort}"

definition isUnidirectionalPort :: "ValueDriver \<Rightarrow> bool" where
  \<comment> \<open>Modelled from the spec: (header missing) a unidirectional-port driver carries
      \<open>InputPort\<close> or \<open>OutputPort\<close>.\<close>
  "isUnidirectionalPort d = has (flags d) {InputPort, OutputPort}"

definition isClockVar :: "ValueDriver \<Rightarrow> bool" where
  \<comment> \<open>Modelled from the spec: (header missing) the driver carries the flag \<open>ClockVar\<close>.\<close>
  "isClockVar d = has (flags d) {ClockVar}"

definition isInSingleDriverProcedure :: "ValueDriver \<Rightarrow> bool" where
  \<comment> \<open>Modelled from the spec: (header missing) a single-driver procedure is
      \<open>always_comb\<close>, \<open>always_ff\<close> or \<open>always_latch\<close>.\<close>
  "isInSingleDriverProcedure d = (source d \<in> {AlwaysComb, AlwaysFF, AlwaysLatch})"

fun sourceRange :: "Expression \<Rightarrow> SourceRange" where
  "sourceRange (NamedValueExpression s r) = r"
| "sourceRange (HierarchicalValueExpression s h r) = r"
| "sourceRange (ElementSelectExpression v sel r) = r"
| "sourceRange (RangeSelectExpression k v l rt r) = r"
| "sourceRange (MemberAccessExpression v m r) = r"
| "sourceRange (AssignmentExpression l rt r) = r"
| "sourceRange (OtherExpression n r) = r"

definition getSourceRange :: "ValueDriver \<Rightarrow> SourceRange" where
  \<comment> \<open>Modelled from the spec: (header missing) the procedural call expression, when
      there is one, gives the source range of the driver; otherwise the prefix expression
      does.\<close>
  "getSourceRange d =
     (case procCallExpression d of
        Some call \<Rightarrow> sourceRange call
      | None \<Rightarrow> sourceRange (prefixExpression d))"

subsection \<open>Diagnostics\<close>

datatype DiagCode =
    InputPortAssign | InputPortCoercion | OutputPortCoercion | ClockVarTargetAssign
  | MultipleAlwaysAssigns | MultipleUWireDrivers | MultipleUDNTDrivers
  | MultipleContAssigns | MixedVarAssigns
  | NoteDrivenHere | NoteDeclarationHere | NoteReferencedHere | NoteAssignedHere
  | NoteFromHere2 | NoteOriginalAssign

text \<open>
  Arguments streamed into a diagnostic. The strings produced by \<open>stringifyLSP\<close>,
  \<open>getProcedureKindStr\<close> and \<open>getHierarchicalPath\<close> are kept symbolic: the argument
  records what the string is computed from.
\<close>

datatype DiagArg =
    ArgString string
  | ArgLSPName ValueSymbol Expression
  | ArgProcedureKind DriverSource
  | ArgHierarchicalPath Symbol

record Note =
  noteCode :: DiagCode
  noteRange :: "SourceRange option"
  noteArgs :: "DiagArg list"

record Diagnostic =
  diagSymbol :: ValueSymbol
  code :: DiagCode
  diagRange :: SourceRange
  diagArgs :: "DiagArg list"
  diagNotes :: "Note list"

datatype Failure = AssertionFailure

definition getLSPName :: "ValueSymbol \<Rightarrow> ValueDriver \<Rightarrow> DiagArg" where
  "getLSPName symbol driver = ArgLSPName symbol (prefixExpression driver)"

definition addAssignedHereNote ::
  "ValueDriver \<Rightarrow> ValueDriver \<Rightarrow> SourceRange \<Rightarrow> SourceRange \<Rightarrow> Note" where
  "addAssignedHereNote cur driver currRange driverRange =
     (if startLoc currRange \<noteq> startLoc driverRange
      then \<lparr> noteCode = NoteAssignedHere, noteRange = Some currRange, noteArgs = [] \<rparr>
      else \<lparr> noteCode = NoteFromHere2, noteRange = None,
             noteArgs = [ArgHierarchicalPath (containingSymbol driver),
                         ArgHierarchicalPath (containingSymbol cur)] \<rparr>)"


text \<open>
  \<open>handleOverlap\<close> adds at most one diagnostic to the context and returns whether the
  scan of the overlapping drivers goes on. The model returns the diagnostics added (none
  or one) with that verdict; \<open>SLANG_ASSERT(netType)\<close> is the branch \<open>Inl\<close>. The note
  helper of the source captures \<open>currRange\<close> and \<open>driverRange\<close> by reference, so it sees
  them after the swap of the procedural branch.
\<close>

definition handleOverlap ::
  "ValueSymbol \<Rightarrow> ValueDriver \<Rightarrow> ValueDriver \<Rightarrow> bool \<Rightarrow> bool \<Rightarrow> bool \<Rightarrow> NetType option
     \<Rightarrow> Failure + (Diagnostic list \<times> bool)" where
  "handleOverlap symbol cur driver isNet isUWire isSingleDriverUDNT netTy =
    (let currRange = getSourceRange cur;
         driverRange = getSourceRange driver;
         isUnidirectionNetPort =
           (isNet \<and> (isUnidirectionalPort cur \<or> isUnidirectionalPort driver))
     in
     if (isUnidirectionNetPort \<and> \<not> isUWire \<and> \<not> isSingleDriverUDNT) \<or>
        (\<not> isNet \<and> (isInputPort cur \<or> isInputPort driver))
     then
       (let c = (if isNet
                 then (if has (flags cur) {InputPort} then InputPortCoercion
                       else OutputPortCoercion)
                 else InputPortAssign);
            swapped = (isInputPort driver \<or> has (flags cur) {OutputPort});
            portRange = (if swapped then driverRange else currRange);
            assignRange = (if swapped then currRange else driverRange);
            note = (if c = OutputPortCoercion then NoteDrivenHere else NoteDeclarationHere)
        in Inr ([\<lparr> diagSymbol = symbol, code = c, diagRange = assignRange,
                     diagArgs = [ArgString (name symbol)],
                     diagNotes = [\<lparr> noteCode = note, noteRange = Some portRange,
                                    noteArgs = [] \<rparr>] \<rparr>],
                isNet))
     else if isClockVar cur \<or> isClockVar driver
     then
       (if isClockVar cur \<and> isClockVar driver then Inr ([], True)
        else if driverKind cur = Procedural \<or> driverKind driver = Procedural
        then Inr ([], True)
        else
          (let driverRange' = (if isClockVar driver then currRange else driverRange);
               currRange' = (if isClockVar driver then driverRange else currRange)
           in Inr ([\<lparr> diagSymbol = symbol, code = ClockVarTargetAssign,
                        diagRange = driverRange',
                        diagArgs = [ArgString (name symbol)],
                        diagNotes = [\<lparr> noteCode = NoteReferencedHere,
                                       noteRange = Some currRange', noteArgs = [] \<rparr>] \<rparr>],
                   False)))
     else if driverKind cur = Procedural \<and> driverKind driver = Procedural
     then
       (let fromDriver = isInSingleDriverProcedure driver;
            procKind = (if fromDriver then source driver else source cur);
            driverRange' = (if fromDriver then driverRange else currRange);
            currRange' = (if fromDriver then currRange else driverRange);
            sourceForName = (if fromDriver then driver else cur);
            extra =
              (if procCallExpression driver \<noteq> None \<or> procCallExpression cur \<noteq> None
               then [\<lparr> noteCode = NoteOriginalAssign,
                       noteRange = Some (if procCallExpression driver \<noteq> None
                                         then sourceRange (prefixExpression driver)
                                         else sourceRange (prefixExpression cur)),
                       noteArgs = [] \<rparr>]
               else [])
        in Inr ([\<lparr> diagSymbol = symbol, code = MultipleAlwaysAssigns,
                     diagRange = driverRange',
                     diagArgs = [getLSPName symbol sourceForName, ArgProcedureKind procKind],
                     diagNotes = addAssignedHereNote cur driver currRange' driverRange'
                                   # extra \<rparr>],
                False))
     else
       (let c = (if isUWire then MultipleUWireDrivers
                 else if isSingleDriverUDNT then MultipleUDNTDrivers
                 else if driverKind driver = Continuous \<and> driverKind cur = Continuous
                 then MultipleContAssigns
                 else MixedVarAssigns)
        in if isSingleDriverUDNT \<and> netTy = None then Inl AssertionFailure
           else Inr ([\<lparr> diagSymbol = symbol, code = c, diagRange = driverRange,
                        diagArgs = getLSPName symbol driver #
                          (if isSingleDriverUDNT
                           then (case netTy of Some nt \<Rightarrow> [ArgString (netTypeName nt)]
                                 | None \<Rightarrow> [])
                           else []),
                        diagNotes = [addAssignedHereNote cur driver currRange driverRange] \<rparr>],
                     False)))"


section \<open>The tracker\<close>

subsection \<open>Containers\<close>

type_synonym SymbolDriverMap = "(DriverBitRange \<times> ValueDriver) list"

type_synonym DriverList = "(ValueDriver \<times> DriverBitRange) list"

definition overlaps :: "DriverBitRange \<Rightarrow> DriverBitRange \<Rightarrow> bool" where
  \<comment> \<open>Modelled from the spec: the interval map is missing; its keys are closed intervals
      \<open>[lo, hi]\<close> of unsigned bit positions.\<close>
  "overlaps a b = (fst a \<le> snd b \<and> fst b \<le> snd a)"

definition IntervalMap_insert ::
  "DriverBitRange \<Rightarrow> ValueDriver \<Rightarrow> SymbolDriverMap \<Rightarrow> SymbolDriverMap" where
  \<comment> \<open>Modelled from the spec: the interval map is missing; several entries may share an
      interval, entries are never deleted, and the order among them is the insertion
      order.\<close>
  "IntervalMap_insert bounds d m = m @ [(bounds, d)]"

definition IntervalMap_find :: "DriverBitRange \<Rightarrow> SymbolDriverMap \<Rightarrow> SymbolDriverMap" where
  \<comment> \<open>Modelled from the spec: the interval map is missing; \<open>find(range)\<close> starts at the
      first stored interval that overlaps \<open>range\<close> and the iteration goes through all the
      overlapping entries in storage order.\<close>
  "IntervalMap_find bounds m = filter (\<lambda>e. overlaps (fst e) bounds) m"

definition try_emplace_and_visit ::
  "'k \<Rightarrow> 'v \<Rightarrow> ('v \<Rightarrow> 'v) \<Rightarrow> ('k \<times> 'v) list \<Rightarrow> ('k \<times> 'v) list" where
  \<comment> \<open>Modelled from the spec: the concurrent map is missing; the call creates the entry
      with a default value or finds it, and runs the callback on it. This is the
      instance whose callback only updates the entry.\<close>
  "try_emplace_and_visit k dflt f m =
     (case map_of m k of
        None \<Rightarrow> m @ [(k, f dflt)]
      | Some _ \<Rightarrow> map (\<lambda>e. if fst e = k then (fst e, f (snd e)) else e) m)"

record InstanceSymbol = Symbol +
  canonicalBody :: "Symbol option"

record InstanceState =
  nonCanonicalInstances :: "InstanceSymbol list"
  ifacePortDrivers :: "(HierarchicalReference \<times> ValueDriver) list"

text \<open>
  What the tracker asks of its collaborators: the configuration flag of the analysis
  manager, the two LSP utilities, the connection expression of a modport port, and the
  retargeting of a reference to another instance. \<open>retargetIfacePort\<close> only walks the
  elaborated symbol tree (instance bodies, scopes, instance arrays, generate blocks), which
  is outside this development; its result is taken from the environment, so every
  statement below holds whatever it returns.
\<close>

record AnalysisEnv =
  allowDupInitialDrivers :: bool
  visitLSPs :: "Expression \<Rightarrow> Symbol \<Rightarrow> Expression option
                  \<Rightarrow> (ValueSymbol \<times> Expression \<times> bool) list"
  getBounds :: "Expression \<Rightarrow> Symbol \<Rightarrow> ValueSymbol \<Rightarrow> DriverBitRange option"
  getConnectionExpr :: "ValueSymbol \<Rightarrow> Expression option"
  retargetIfacePort :: "HierarchicalReference \<Rightarrow> InstanceSymbol \<Rightarrow> ValueSymbol option"

text \<open>
  The state: the three maps of the tracker and the diagnostics collected by the analysis
  context. \<open>symbolDrivers\<close> is read by key only; the other two maps are also iterated or
  copied, so they keep their entries in a list (in order of creation; the concurrent map
  promises no order).
\<close>

record TrackerState =
  symbolDrivers :: "ValueSymbol \<rightharpoonup> SymbolDriverMap"
  modportPortDrivers :: "(ValueSymbol \<times> DriverList) list"
  instanceMap :: "(Symbol \<times> InstanceState) list"
  diags :: "Diagnostic list"

definition emptyTracker :: TrackerState where
  "emptyTracker =
     \<lparr> symbolDrivers = Map.empty, modportPortDrivers = [], instanceMap = [], diags = [] \<rparr>"

subsection \<open>addDriver\<close>

fun visitComponents :: "Expression \<Rightarrow> bool \<Rightarrow> Expression list" where
  \<comment> \<open>Modelled from the spec: the LSP utility is missing; it enumerates the
      sub-expressions of a longest static prefix, from the outermost select down to the
      root, the root being included on request.\<close>
  "visitComponents (ElementSelectExpression v sel r) includeRoot =
     ElementSelectExpression v sel r # visitComponents v includeRoot"
| "visitComponents (RangeSelectExpression k v l rt r) includeRoot =
     RangeSelectExpression k v l rt r # visitComponents v includeRoot"
| "visitComponents (MemberAccessExpression v m r) includeRoot =
     MemberAccessExpression v m r # visitComponents v includeRoot"
| "visitComponents e includeRoot = (if includeRoot then [e] else [])"

definition ifacePortScan :: "Expression \<Rightarrow> HierarchicalReference option" where
  "ifacePortScan prefixExpr =
     fold (\<lambda>expr result.
             case expr of
               HierarchicalValueExpression s ref r \<Rightarrow>
                 (if isViaIfacePort ref then Some ref else result)
             | _ \<Rightarrow> result)
          (visitComponents prefixExpr True) None"

definition addInitializer :: "ValueSymbol \<Rightarrow> DriverKind \<Rightarrow> SymbolDriverMap \<Rightarrow> SymbolDriverMap" where
  "addInitializer symbol k driverMap =
     (let valExpr = NamedValueExpression symbol
                      \<lparr> startLoc = location symbol,
                        endLoc = location symbol + length (name symbol) \<rparr>;
          initBounds = (0, selectableWidth symbol - 1);
          initDriver = newValueDriver k valExpr (parentScope symbol) {Initializer}
      in IntervalMap_insert initBounds initDriver driverMap)"

definition VariableSymbol_isKind :: "SymbolKind \<Rightarrow> bool" where
  \<comment> \<open>Modelled from the spec: the symbol classes are missing; the overlap check applies to
      a "static-lifetime variable", and the variables are the symbols of these kinds.\<close>
  "VariableSymbol_isKind k =
     (k \<in> {Variable, FormalArgument, Field, ClassProperty, Iterator, PatternVar,
            ClockVarKind, LocalAssertionVar})"

definition shouldIgnore :: "AnalysisEnv \<Rightarrow> ValueDriver \<Rightarrow> bool" where
  "shouldIgnore env vd =
     (source vd = Subroutine \<or> has (flags vd) {Initializer} \<or>
      (source vd = Initial \<and> allowDupInitialDrivers env))"

definition isProblem :: "AnalysisEnv \<Rightarrow> bool \<Rightarrow> ValueDriver \<Rightarrow> ValueDriver \<Rightarrow> bool" where
  "isProblem env checkOverlap cur driver =
     (if isUnidirectionalPort cur \<noteq> isUnidirectionalPort driver then True
      else if checkOverlap then
        (if driverKind driver = Continuous \<or> driverKind cur = Continuous then True
         else if containingSymbol cur \<noteq> containingSymbol driver \<and>
                 \<not> shouldIgnore env cur \<and> \<not> shouldIgnore env driver \<and>
                 (isInSingleDriverProcedure cur \<or> isInSingleDriverProcedure driver)
         then True
         else False)
      else False)"


text \<open>
  The loop over the entries that overlap the new bounds. It returns the diagnostics
  reported; a \<open>false\<close> verdict of \<open>handleOverlap\<close> leaves the loop.
\<close>

fun overlapScan ::
  "AnalysisEnv \<Rightarrow> ValueSymbol \<Rightarrow> ValueDriver \<Rightarrow> bool \<Rightarrow> bool \<Rightarrow> bool \<Rightarrow> NetType option
     \<Rightarrow> bool \<Rightarrow> SymbolDriverMap \<Rightarrow> Failure + Diagnostic list" where
  "overlapScan env symbol driver isNet isUWire isSingleDriverUDNT netTy checkOverlap [] =
     Inr []"
| "overlapScan env symbol driver isNet isUWire isSingleDriverUDNT netTy checkOverlap
     (e # rest) =
     (if isProblem env checkOverlap (snd e) driver
      then
        (case handleOverlap symbol (snd e) driver isNet isUWire isSingleDriverUDNT netTy of
           Inl f \<Rightarrow> Inl f
         | Inr (ds, goOn) \<Rightarrow>
             if \<not> goOn then Inr ds
             else
               (case overlapScan env symbol driver isNet isUWire isSingleDriverUDNT netTy
                       checkOverlap rest of
                  Inl f \<Rightarrow> Inl f
                | Inr ds' \<Rightarrow> Inr (ds @ ds')))
      else overlapScan env symbol driver isNet isUWire isSingleDriverUDNT netTy
             checkOverlap rest)"

definition initializerDrivers :: "ValueSymbol \<Rightarrow> SymbolDriverMap \<Rightarrow> SymbolDriverMap" where
  \<comment> \<open>the \<open>switch\<close> on the symbol kind inside \<open>if (driverMap.empty())\<close>\<close>
  "initializerDrivers symbol driverMap =
     (case kind symbol of
        Net \<Rightarrow>
          (if hasInitializer symbol then addInitializer symbol Continuous driverMap
           else driverMap)
      | Variable \<Rightarrow>
          (if hasInitializer symbol then addInitializer symbol Procedural driverMap
           else driverMap)
      | ClassProperty \<Rightarrow>
          (if hasInitializer symbol then addInitializer symbol Procedural driverMap
           else driverMap)
      | Field \<Rightarrow>
          (if hasInitializer symbol then addInitializer symbol Procedural driverMap
           else driverMap)
      | _ \<Rightarrow> driverMap)"

text \<open>
  The overlap check of \<open>addDriver\<close>: what is asked of the symbol (net, uwire, single-driver
  user-defined net type, whether overlaps are checked at all), then the loop over the
  stored entries that overlap the new bounds.
\<close>

definition overlapReports ::
  "AnalysisEnv \<Rightarrow> ValueSymbol \<Rightarrow> ValueDriver \<Rightarrow> DriverBitRange \<Rightarrow> SymbolDriverMap
     \<Rightarrow> Failure + Diagnostic list" where
  "overlapReports env symbol driver bounds driverMap =
     (let isNet = (kind symbol = Net);
          netTy = (if isNet then Some (netType symbol) else None);
          isUWire = (isNet \<and> netKind (netType symbol) = UWire);
          isSingleDriverUDNT =
            (isNet \<and> netKind (netType symbol) = UserDefined \<and>
             \<not> hasResolutionFunction (netType symbol));
          checkOverlap =
            ((VariableSymbol_isKind (kind symbol) \<and> lifetime symbol = Static) \<or>
             isUWire \<or> isSingleDriverUDNT \<or> kind symbol = LocalAssertionVar)
      in overlapScan env symbol driver isNet isUWire isSingleDriverUDNT netTy checkOverlap
           (IntervalMap_find bounds driverMap))"

text \<open>
  \<open>addDriver\<close> works on the interval map of the symbol, handed over by the visitor of
  \<open>symbolDrivers\<close>, and on the rest of the state (the modport table and the diagnostics).
  It returns the hierarchical reference found by the interface-port scan, the updated
  interval map and the updated state.
\<close>

definition addDriver ::
  "AnalysisEnv \<Rightarrow> ValueSymbol \<Rightarrow> SymbolDriverMap \<Rightarrow> ValueDriver \<Rightarrow> DriverBitRange
     \<Rightarrow> TrackerState
     \<Rightarrow> Failure + (HierarchicalReference option \<times> SymbolDriverMap \<times> TrackerState)" where
  "addDriver env symbol driverMap driver bounds st =
    (if isClass symbol then Inr (None, driverMap, st)
     else
       (let result = (if \<not> isFromSideEffect driver
                      then ifacePortScan (prefixExpression driver) else None)
        in
        if kind symbol = ModportPort
        then Inr (result, driverMap,
                  st\<lparr> modportPortDrivers :=
                        try_emplace_and_visit symbol [] (\<lambda>l. l @ [(driver, bounds)])
                          (modportPortDrivers st) \<rparr>)
        else
          (let driverMap1 = (if driverMap = [] then initializerDrivers symbol driverMap
                             else driverMap)
           in
           if driverMap = [] \<and> driverMap1 = []
           then Inr (result, IntervalMap_insert bounds driver driverMap1, st)
           else
             (case overlapReports env symbol driver bounds driverMap1 of
                Inl f \<Rightarrow> Inl f
              | Inr ds \<Rightarrow>
                  Inr (result, IntervalMap_insert bounds driver driverMap1,
                       st\<lparr> diags := diags st @ ds \<rparr>)))))"

subsection \<open>Loops and visitors\<close>

text \<open>A \<open>for\<close> loop over a list whose body may stop the program.\<close>

fun foldF :: "('a \<Rightarrow> 's \<Rightarrow> Failure + 's) \<Rightarrow> 'a list \<Rightarrow> 's \<Rightarrow> Failure + 's" where
  "foldF f [] s = Inr s"
| "foldF f (x # xs) s = (case f x s of Inl e \<Rightarrow> Inl e | Inr s' \<Rightarrow> foldF f xs s')"

definition symbolDrivers_visit ::
  "ValueSymbol
     \<Rightarrow> (SymbolDriverMap \<Rightarrow> TrackerState \<Rightarrow> Failure + ('a \<times> SymbolDriverMap \<times> TrackerState))
     \<Rightarrow> TrackerState \<Rightarrow> Failure + ('a \<times> TrackerState)" where
  \<comment> \<open>\<open>symbolDrivers.try_emplace_and_visit(&symbol, updateFunc, updateFunc)\<close>: the entry is
      created empty when the symbol has none, and the callback runs on it.\<close>
  "symbolDrivers_visit symbol updateFunc st =
     (let driverMap = (case symbolDrivers st symbol of None \<Rightarrow> [] | Some m \<Rightarrow> m)
      in case updateFunc driverMap st of
           Inl e \<Rightarrow> Inl e
         | Inr (x, driverMap', st') \<Rightarrow>
             Inr (x, st'\<lparr> symbolDrivers := (symbolDrivers st')(symbol \<mapsto> driverMap') \<rparr>))"

definition getDrivers :: "TrackerState \<Rightarrow> ValueSymbol \<Rightarrow> DriverList" where
  "getDrivers st symbol =
     (case symbolDrivers st symbol of
        None \<Rightarrow> []
      | Some m \<Rightarrow> map (\<lambda>e. (snd e, fst e)) m)"

subsection \<open>Interface-port side effects\<close>

definition emptyInstanceState :: InstanceState where
  "emptyInstanceState = \<lparr> nonCanonicalInstances = [], ifacePortDrivers = [] \<rparr>"

definition asSymbol :: "InstanceSymbol \<Rightarrow> Symbol" where
  "asSymbol instance = Symbol.truncate instance"

definition applyInstanceSideEffect ::
  "AnalysisEnv \<Rightarrow> HierarchicalReference \<times> ValueDriver \<Rightarrow> InstanceSymbol \<Rightarrow> TrackerState
     \<Rightarrow> Failure + TrackerState" where
  "applyInstanceSideEffect env ifacePortDriver instance st =
     (case retargetIfacePort env (fst ifacePortDriver) instance of
        None \<Rightarrow> Inr st
      | Some valueSym \<Rightarrow>
          (let driver = (snd ifacePortDriver)
                 \<lparr> containingSymbol := asSymbol instance, isFromSideEffect := True \<rparr>
           in case getBounds env (prefixExpression driver) (asSymbol instance) valueSym of
                None \<Rightarrow> Inr st
              | Some bounds \<Rightarrow>
                  (case symbolDrivers_visit valueSym
                          (\<lambda>driverMap s. addDriver env valueSym driverMap driver bounds s) st of
                     Inl f \<Rightarrow> Inl f
                   | Inr (ref, st') \<Rightarrow>
                       if ref \<noteq> None then Inl AssertionFailure else Inr st')))"

definition join :: "HierarchicalReference \<Rightarrow> HierarchicalReference \<Rightarrow> HierarchicalReference" where
  \<comment> \<open>Modelled from the spec: \<open>HierarchicalReference::join\<close> is missing; the joined
      reference threads the reference through the connection of its interface port: it
      starts with the path of the connection, goes on with the path of the reference after
      the port, and keeps the target and the expression of the reference.\<close>
  "join connRef ref =
     HierarchicalReference (target ref) (hasExpr ref) (path connRef @ tl (path ref))
       (isViaIfacePort connRef) (portScope connRef) (portConnection connRef)"

fun connectionDepth :: "HierarchicalReference \<Rightarrow> nat" where
  "connectionDepth (HierarchicalReference t e p v s c) =
     (case c of None \<Rightarrow> 0 | Some r \<Rightarrow> Suc (connectionDepth r))"

function noteInterfacePortDriver ::
  "AnalysisEnv \<Rightarrow> HierarchicalReference \<Rightarrow> ValueDriver \<Rightarrow> TrackerState
     \<Rightarrow> Failure + TrackerState" where
  "noteInterfacePortDriver env ref driver st =
     (if \<not> isViaIfacePort ref \<or> target ref = None \<or> \<not> hasExpr ref
      then Inl AssertionFailure
      else if kind (portScope ref) \<noteq> InstanceBody then Inl AssertionFailure
      else
        (let im = try_emplace_and_visit (portScope ref) emptyInstanceState
                    (\<lambda>state. state\<lparr> ifacePortDrivers :=
                                      ifacePortDrivers state @ [(ref, driver)] \<rparr>)
                    (instanceMap st);
             nonCanonical = (case map_of im (portScope ref) of
                               None \<Rightarrow> []
                             | Some state \<Rightarrow> nonCanonicalInstances state)
         in case foldF (\<lambda>inst. applyInstanceSideEffect env (ref, driver) inst)
                   nonCanonical (st\<lparr> instanceMap := im \<rparr>) of
              Inl f \<Rightarrow> Inl f
            | Inr st' \<Rightarrow>
                (case portConnection ref of
                   None \<Rightarrow> Inr st'
                 | Some connRef \<Rightarrow>
                     if isViaIfacePort connRef
                     then noteInterfacePortDriver env (join connRef ref) driver st'
                     else Inr st')))"
  by pat_completeness auto
termination
  apply (relation "measure (\<lambda>(env, ref, driver, st). connectionDepth ref)")
   apply simp
  apply (auto simp: join_def)
  subgoal for env ref driver st st' connRef tgt
    by (cases ref; cases connRef) simp
  done

declare noteInterfacePortDriver.simps [simp del]

definition noteNonCanonicalInstance ::
  "AnalysisEnv \<Rightarrow> InstanceSymbol \<Rightarrow> TrackerState \<Rightarrow> Failure + TrackerState" where
  "noteNonCanonicalInstance env instance st =
     (case canonicalBody instance of
        None \<Rightarrow> Inl AssertionFailure
      | Some canonical \<Rightarrow>
          (let im = try_emplace_and_visit canonical emptyInstanceState
                      (\<lambda>state. state\<lparr> nonCanonicalInstances :=
                                        nonCanonicalInstances state @ [instance] \<rparr>)
                      (instanceMap st);
               copied = (case map_of im canonical of
                           None \<Rightarrow> []
                         | Some state \<Rightarrow> ifacePortDrivers state)
           in foldF (\<lambda>ifacePortDriver. applyInstanceSideEffect env ifacePortDriver instance)
                copied (st\<lparr> instanceMap := im \<rparr>)))"


subsection \<open>Adding drivers\<close>

definition addDrivers_visit ::
  "AnalysisEnv \<Rightarrow> DriverKind \<Rightarrow> DriverFlags set \<Rightarrow> Symbol
     \<Rightarrow> ValueSymbol \<times> Expression \<times> bool
     \<Rightarrow> (HierarchicalReference \<times> ValueDriver) list \<times> TrackerState
     \<Rightarrow> Failure + ((HierarchicalReference \<times> ValueDriver) list \<times> TrackerState)" where
  \<comment> \<open>the callback that \<open>addDrivers\<close> hands to \<open>visitLSPs\<close>\<close>
  "addDrivers_visit env k fl containing visited acc =
     (let symbol = fst visited; lsp = fst (snd visited); isLValue = snd (snd visited);
          ifacePortRefs = fst acc; st = snd acc
      in
      if \<not> isLValue then Inr acc
      else
        (case getBounds env lsp containing symbol of
           None \<Rightarrow> Inr acc
         | Some bounds \<Rightarrow>
             (let driver = newValueDriver k lsp containing fl
              in case symbolDrivers_visit symbol
                        (\<lambda>driverMap s. addDriver env symbol driverMap driver bounds s) st of
                   Inl f \<Rightarrow> Inl f
                 | Inr (ref, st') \<Rightarrow>
                     (case ref of
                        None \<Rightarrow> Inr (ifacePortRefs, st')
                      | Some r \<Rightarrow> Inr (ifacePortRefs @ [(r, driver)], st')))))"

definition addDrivers ::
  "AnalysisEnv \<Rightarrow> Expression \<Rightarrow> DriverKind \<Rightarrow> DriverFlags set \<Rightarrow> Symbol
     \<Rightarrow> Expression option \<Rightarrow> TrackerState \<Rightarrow> Failure + TrackerState" where
  "addDrivers env expr k fl containing initialLSP st =
     (case foldF (addDrivers_visit env k fl containing)
             (visitLSPs env expr containing initialLSP) ([], st) of
        Inl f \<Rightarrow> Inl f
      | Inr (ifacePortRefs, st') \<Rightarrow>
          foldF (\<lambda>rd. noteInterfacePortDriver env (fst rd) (snd rd)) ifacePortRefs st')"

text \<open>
  The loop of \<open>add(procedure)\<close> over the drivers of one symbol runs inside one visit of the
  symbol's entry; it collects the drivers that came through an interface port.
\<close>

fun addProcedureDrivers ::
  "AnalysisEnv \<Rightarrow> ValueSymbol \<Rightarrow> DriverList \<Rightarrow> SymbolDriverMap \<Rightarrow> TrackerState
     \<Rightarrow> Failure + ((HierarchicalReference \<times> ValueDriver) list \<times> SymbolDriverMap
                    \<times> TrackerState)" where
  "addProcedureDrivers env symbol [] driverMap st = Inr ([], driverMap, st)"
| "addProcedureDrivers env symbol (db # rest) driverMap st =
     (case addDriver env symbol driverMap (fst db) (snd db) st of
        Inl f \<Rightarrow> Inl f
      | Inr (ref, driverMap', st') \<Rightarrow>
          (case addProcedureDrivers env symbol rest driverMap' st' of
             Inl f \<Rightarrow> Inl f
           | Inr (refs, driverMap'', st'') \<Rightarrow>
               Inr ((case ref of None \<Rightarrow> [] | Some r \<Rightarrow> [(r, fst db)]) @ refs,
                    driverMap'', st'')))"

definition add_procedure_visit ::
  "AnalysisEnv \<Rightarrow> ValueSymbol \<times> DriverList
     \<Rightarrow> (HierarchicalReference \<times> ValueDriver) list \<times> TrackerState
     \<Rightarrow> Failure + ((HierarchicalReference \<times> ValueDriver) list \<times> TrackerState)" where
  "add_procedure_visit env entry acc =
     (case symbolDrivers_visit (fst entry)
             (\<lambda>driverMap s. addProcedureDrivers env (fst entry) (snd entry) driverMap s)
             (snd acc) of
        Inl f \<Rightarrow> Inl f
      | Inr (refs, st') \<Rightarrow> Inr (fst acc @ refs, st'))"

definition add_procedure ::
  "AnalysisEnv \<Rightarrow> (ValueSymbol \<times> DriverList) list \<Rightarrow> TrackerState \<Rightarrow> Failure + TrackerState" where
  \<comment> \<open>\<open>add(context, driverAlloc, procedure)\<close>; the argument is \<open>procedure.getDrivers()\<close>\<close>
  "add_procedure env procedureDrivers st =
     (case foldF (add_procedure_visit env) procedureDrivers ([], st) of
        Inl f \<Rightarrow> Inl f
      | Inr (ifacePortRefs, st') \<Rightarrow>
          foldF (\<lambda>rd. noteInterfacePortDriver env (fst rd) (snd rd)) ifacePortRefs st')"

fun addListedDrivers ::
  "AnalysisEnv \<Rightarrow> ValueSymbol \<Rightarrow> DriverList \<Rightarrow> SymbolDriverMap \<Rightarrow> TrackerState
     \<Rightarrow> Failure + (unit \<times> SymbolDriverMap \<times> TrackerState)" where
  "addListedDrivers env symbol [] driverMap st = Inr ((), driverMap, st)"
| "addListedDrivers env symbol (db # rest) driverMap st =
     (case addDriver env symbol driverMap (fst db) (snd db) st of
        Inl f \<Rightarrow> Inl f
      | Inr (ref, driverMap', st') \<Rightarrow>
          if ref \<noteq> None then Inl AssertionFailure
          else addListedDrivers env symbol rest driverMap' st')"

definition add_symbolDriverList ::
  "AnalysisEnv \<Rightarrow> (ValueSymbol \<times> DriverList) list \<Rightarrow> TrackerState \<Rightarrow> Failure + TrackerState" where
  \<comment> \<open>\<open>add(context, driverAlloc, symbolDriverList)\<close>\<close>
  "add_symbolDriverList env symbolDriverList st =
     foldF (\<lambda>entry s.
              case symbolDrivers_visit (fst entry)
                     (\<lambda>driverMap s'. addListedDrivers env (fst entry) (snd entry) driverMap s')
                     s of
                Inl f \<Rightarrow> Inl f
              | Inr (u, s') \<Rightarrow> Inr s')
       symbolDriverList st"


text \<open>
  The symbols handed to the other \<open>add\<close> overloads. A port connection knows the kind and
  the direction of its port, its expression and whether that expression is bad; a port
  symbol knows its direction, its internal expression or symbol, and its parent scope.
\<close>

record PortConnection =
  connPortKind :: SymbolKind
  connPortDirection :: ArgumentDirection
  connExpression :: "Expression option"
  connExpressionBad :: bool

record PortSymbol =
  direction :: ArgumentDirection
  internalExpr :: "Expression option"
  internalSymbol :: "ValueSymbol option"
  portParentScope :: Symbol

record ClockVarSymbol =
  clockVarDirection :: ArgumentDirection
  clockVarInitializer :: "Expression option"
  clockVarParentScope :: Symbol

definition add_portConnection ::
  "AnalysisEnv \<Rightarrow> PortConnection \<Rightarrow> Symbol \<Rightarrow> TrackerState \<Rightarrow> Failure + TrackerState" where
  "add_portConnection env connection containing st =
     (case connExpression connection of
        None \<Rightarrow> Inr st
      | Some expr \<Rightarrow>
          if connExpressionBad connection \<or> connPortKind connection = InterfacePort
          then Inr st
          else if connPortDirection connection = In then Inr st
          else
            (let fl = (if connPortDirection connection = Out then {OutputPort} else {});
                 expr' = (case expr of
                            AssignmentExpression left right r \<Rightarrow> left
                          | _ \<Rightarrow> expr)
             in addDrivers env expr' Continuous fl containing None st))"

definition add_port :: "AnalysisEnv \<Rightarrow> PortSymbol \<Rightarrow> TrackerState \<Rightarrow> Failure + TrackerState" where
  "add_port env symbol st =
     (let dir = direction symbol
      in
      if dir \<noteq> In \<and> dir \<noteq> InOut then Inr st
      else
        (let fl = (if dir = In then {InputPort} else {})
         in case internalExpr symbol of
              Some expr \<Rightarrow>
                addDrivers env expr Continuous fl (portParentScope symbol) None st
            | None \<Rightarrow>
                (case internalSymbol symbol of
                   Some is \<Rightarrow>
                     (let nve = NamedValueExpression is
                                  \<lparr> startLoc = location is,
                                    endLoc = location is + length (name is) \<rparr>
                      in addDrivers env nve Continuous fl (portParentScope symbol) None st)
                 | None \<Rightarrow> Inr st)))"

definition add_clockVar ::
  "AnalysisEnv \<Rightarrow> ClockVarSymbol \<Rightarrow> TrackerState \<Rightarrow> Failure + TrackerState" where
  "add_clockVar env symbol st =
     (if clockVarDirection symbol = In then Inr st
      else
        (case clockVarInitializer symbol of
           Some expr \<Rightarrow>
             addDrivers env expr Continuous {ClockVar} (clockVarParentScope symbol) None st
         | None \<Rightarrow> Inr st))"

definition add_expression ::
  "AnalysisEnv \<Rightarrow> Expression \<Rightarrow> Symbol \<Rightarrow> TrackerState \<Rightarrow> Failure + TrackerState" where
  "add_expression env expr containing st =
     addDrivers env expr Continuous {} containing None st"

subsection \<open>Modport propagation\<close>

definition propagateModportDriver ::
  "AnalysisEnv \<Rightarrow> Expression \<Rightarrow> ValueDriver \<Rightarrow> TrackerState \<Rightarrow> Failure + TrackerState" where
  "propagateModportDriver env connectionExpr originalDriver st =
     (let initialLSP =
            (case prefixExpression originalDriver of
               ElementSelectExpression v sel r \<Rightarrow>
                 Some (ElementSelectExpression connectionExpr sel r)
             | RangeSelectExpression k v l rt r \<Rightarrow>
                 Some (RangeSelectExpression k connectionExpr l rt r)
             | MemberAccessExpression v m r \<Rightarrow>
                 Some (MemberAccessExpression connectionExpr m r)
             | _ \<Rightarrow> None)
      in addDrivers env connectionExpr (driverKind originalDriver) (flags originalDriver)
           (containingSymbol originalDriver) initialLSP st)"

definition propagatePass ::
  "AnalysisEnv \<Rightarrow> (ValueSymbol \<times> DriverList) list \<Rightarrow> TrackerState \<Rightarrow> Failure + TrackerState" where
  \<comment> \<open>\<open>localCopy.cvisit_all(...)\<close>: one pass over the entries swapped out of the table\<close>
  "propagatePass env localCopy st =
     foldF (\<lambda>item s.
              case getConnectionExpr env (fst item) of
                Some expr \<Rightarrow>
                  foldF (\<lambda>od s'. propagateModportDriver env expr (fst od) s') (snd item) s
              | None \<Rightarrow> Inr s)
       localCopy st"

text \<open>
  The loop \<open>while (true)\<close> has no bound, so the model is a partial function: the value
  \<open>None\<close> means that the loop runs forever, \<open>Some (Inl f)\<close> that an assertion stopped the
  program, and \<open>Some (Inr st)\<close> that the function returned in state \<open>st\<close>.
\<close>

partial_function (option) propagateModportDrivers ::
  "AnalysisEnv \<Rightarrow> TrackerState \<Rightarrow> (Failure + TrackerState) option" where
  "propagateModportDrivers env st =
     (if modportPortDrivers st = [] then Some (Inr (st\<lparr> modportPortDrivers := [] \<rparr>))
      else
        (case propagatePass env (modportPortDrivers st) (st\<lparr> modportPortDrivers := [] \<rparr>) of
           Inl f \<Rightarrow> Some (Inl f)
         | Inr st' \<Rightarrow> propagateModportDrivers env st'))"


section \<open>A small design for concrete runs\<close>

text \<open>
  A scope \<open>top\<close> holding a four-bit net \<open>n\<close> declared with an initializer
  (\<open>wire [3:0] n = 4'b0;\<close>), and an environment in which a named value is its own longest
  static prefix and covers the whole symbol.
\<close>

definition topScope :: Symbol where
  "topScope = \<lparr> addr = 1, kind = InstanceBody, name = ''top'', location = 0,
                 procedureKind = Other, hierarchicalPath = ''top'' \<rparr>"

definition wireType :: NetType where
  "wireType = \<lparr> netKind = Wire, hasResolutionFunction = False, netTypeName = ''wire'' \<rparr>"

definition netN :: ValueSymbol where
  "netN = \<lparr> addr = 2, kind = Net, name = ''n'', location = 10, procedureKind = Other,
             hierarchicalPath = ''top.n'', isClass = False, selectableWidth = 4,
             hasInitializer = True, lifetime = Static, netType = wireType,
             parentScope = topScope \<rparr>"

definition nameOf :: "ValueSymbol \<Rightarrow> Expression" where
  "nameOf s = NamedValueExpression s
                \<lparr> startLoc = location s, endLoc = location s + length (name s) \<rparr>"

definition plainEnv :: AnalysisEnv where
  "plainEnv =
     \<lparr> allowDupInitialDrivers = False,
       visitLSPs = (\<lambda>e c i. case e of NamedValueExpression s r \<Rightarrow> [(s, e, True)] | _ \<Rightarrow> []),
       getBounds = (\<lambda>lsp c s. Some (0, selectableWidth s - 1)),
       getConnectionExpr = (\<lambda>s. None),
       retargetIfacePort = (\<lambda>r i. None) \<rparr>"

definition assignTo :: "ValueSymbol \<Rightarrow> SourceLocation \<Rightarrow> Expression" where
  \<comment> \<open>the left-hand side of an assignment to the whole symbol, written at the location\<close>
  "assignTo s loc = NamedValueExpression s \<lparr> startLoc = loc, endLoc = loc + length (name s) \<rparr>"

definition inputPortDriver :: ValueDriver where
  "inputPortDriver = newValueDriver Continuous (nameOf netN) topScope {InputPort}"

definition assignDriver :: ValueDriver where
  "assignDriver = newValueDriver Continuous (assignTo netN 40) topScope {}"

definition reported :: "Failure + (Diagnostic list \<times> bool) \<Rightarrow> Failure + (DiagCode list \<times> bool)" where
  \<comment> \<open>the diagnostic codes and the verdict of a call of \<open>handleOverlap\<close>\<close>
  "reported r = (case r of Inl f \<Rightarrow> Inl f | Inr (ds, goOn) \<Rightarrow> Inr (map code ds, goOn))"

definition classVar :: ValueSymbol where
  \<comment> \<open>a variable of a class type, declared with an initializer: \<open>C c = new;\<close>\<close>
  "classVar = \<lparr> addr = 3, kind = Variable, name = ''c'', location = 20, procedureKind = Other,
                 hierarchicalPath = ''top.c'', isClass = True, selectableWidth = 0,
                 hasInitializer = True, lifetime = Static, netType = wireType,
                 parentScope = topScope \<rparr>"

definition varV :: ValueSymbol where
  \<comment> \<open>a static variable declared with an initializer: \<open>logic [7:0] v = 0;\<close>\<close>
  "varV = \<lparr> addr = 4, kind = Variable, name = ''v'', location = 30, procedureKind = Other,
             hierarchicalPath = ''top.v'', isClass = False, selectableWidth = 8,
             hasInitializer = True, lifetime = Static, netType = wireType,
             parentScope = topScope \<rparr>"

definition varW :: ValueSymbol where
  \<comment> \<open>a static variable without initializer: \<open>logic [7:0] w;\<close>\<close>
  "varW = \<lparr> addr = 5, kind = Variable, name = ''w'', location = 35, procedureKind = Other,
             hierarchicalPath = ''top.w'', isClass = False, selectableWidth = 8,
             hasInitializer = False, lifetime = Static, netType = wireType,
             parentScope = topScope \<rparr>"

definition combBlock :: Symbol where
  \<comment> \<open>an \<open>always_comb\<close> block of \<open>top\<close>\<close>
  "combBlock = \<lparr> addr = 6, kind = ProceduralBlock, name = ''comb'', location = 60,
                  procedureKind = AlwaysComb, hierarchicalPath = ''top.comb'' \<rparr>"

definition combDriver :: "ValueSymbol \<Rightarrow> ValueDriver" where
  \<comment> \<open>the driver of an assignment to the whole symbol inside the \<open>always_comb\<close> block\<close>
  "combDriver s = newValueDriver Procedural (assignTo s 70) combBlock {}"

definition outcome ::
  "Failure + TrackerState \<Rightarrow> ValueSymbol \<Rightarrow> Failure + (DriverList \<times> DiagCode list)" where
  \<comment> \<open>what a run leaves for a symbol: its drivers, and the codes of the diagnostics reported\<close>
  "outcome r s =
     (case r of Inl f \<Rightarrow> Inl f | Inr st \<Rightarrow> Inr (getDrivers st s, map code (diags st)))"

text \<open>
  An interface \<open>I\<close> with a variable; a module body \<open>m\<close> with an interface port \<open>p\<close> that
  drives \<open>p.w\<close> from its \<open>always_comb\<close> block; \<open>u2\<close> is a second instance of \<open>m\<close>, not the
  canonical one. In \<open>ifaceEnv\<close> every reference is retargeted to the variable \<open>w\<close>.
\<close>

definition bodyM :: Symbol where
  "bodyM = \<lparr> addr = 7, kind = InstanceBody, name = ''m'', location = 100,
              procedureKind = Other, hierarchicalPath = ''top.u1'' \<rparr>"

definition instU2 :: InstanceSymbol where
  "instU2 = \<lparr> addr = 8, kind = Instance, name = ''u2'', location = 120,
               procedureKind = Other, hierarchicalPath = ''top.u2'',
               canonicalBody = Some bodyM \<rparr>"

definition ifaceRef :: HierarchicalReference where
  "ifaceRef = HierarchicalReference (Some (Symbol.truncate varW)) True
                [(''p'', NameSel ''p''), (''w'', NameSel ''w'')] True bodyM None"

definition viaPortDriver :: ValueDriver where
  "viaPortDriver =
     newValueDriver Procedural
       (HierarchicalValueExpression varW ifaceRef \<lparr> startLoc = 130, endLoc = 133 \<rparr>)
       combBlock {}"

definition ifaceEnv :: AnalysisEnv where
  "ifaceEnv = plainEnv\<lparr> retargetIfacePort := (\<lambda>r i. Some varW) \<rparr>"

text \<open>
  Two modport ports in a chain: the port \<open>z\<close> of an outer interface is connected to the
  port \<open>y\<close> of an inner one, which is connected to the variable \<open>w\<close>.
\<close>

definition mpY :: ValueSymbol where
  "mpY = \<lparr> addr = 9, kind = ModportPort, name = ''y'', location = 140, procedureKind = Other,
            hierarchicalPath = ''top.i.mp.y'', isClass = False, selectableWidth = 8,
            hasInitializer = False, lifetime = Static, netType = wireType,
            parentScope = topScope \<rparr>"

definition mpZ :: ValueSymbol where
  "mpZ = \<lparr> addr = 10, kind = ModportPort, name = ''z'', location = 150, procedureKind = Other,
            hierarchicalPath = ''top.j.mq.z'', isClass = False, selectableWidth = 8,
            hasInitializer = False, lifetime = Static, netType = wireType,
            parentScope = topScope \<rparr>"

definition modportEnv :: AnalysisEnv where
  "modportEnv =
     plainEnv\<lparr> getConnectionExpr :=
                 (\<lambda>s. if s = mpZ then Some (nameOf mpY)
                      else if s = mpY then Some (nameOf varW)
                      else None) \<rparr>"

definition modportRank :: "ValueSymbol \<Rightarrow> nat" where
  "modportRank s = (if s = mpZ then 2 else if s = mpY then 1 else 0)"

definition pendingZ :: TrackerState where
  \<comment> \<open>the tracker after \<open>assign z = ...;\<close> was recorded against the modport port \<open>z\<close>\<close>
  "pendingZ =
     emptyTracker\<lparr> symbolDrivers := [mpZ \<mapsto> []],
                    modportPortDrivers :=
                      [(mpZ, [(newValueDriver Continuous (assignTo mpZ 160) topScope {},
                               (0, 7))])] \<rparr>"

definition afterZ :: TrackerState where
  \<comment> \<open>after the first pass of the propagation from \<open>pendingZ\<close>: the driver waits on \<open>y\<close>\<close>
  "afterZ =
     pendingZ\<lparr> symbolDrivers := [mpZ \<mapsto> [], mpY \<mapsto> []],
                modportPortDrivers :=
                  [(mpY, [(newValueDriver Continuous (nameOf mpY) topScope {}, (0, 7))])] \<rparr>"

definition afterY :: TrackerState where
  \<comment> \<open>after the second pass: the driver has reached the variable \<open>w\<close>\<close>
  "afterY =
     pendingZ\<lparr> symbolDrivers :=
                  [mpZ \<mapsto> [], mpY \<mapsto> [],
                   varW \<mapsto> [((0, 7), newValueDriver Continuous (nameOf varW) topScope {})]],
                modportPortDrivers := [] \<rparr>"











text \<open>
  A side effect that lands on a modport port. In the instance \<open>u2\<close> the reference
  \<open>p.w\<close> resolves to the modport port \<open>q\<close>, and \<open>q\<close> is connected, inside its interface
  \<open>I\<close>, to \<open>b.g\<close>: the variable \<open>g\<close> reached through the interface port \<open>b\<close> of \<open>I\<close>. In
  \<open>cascadeEnv\<close> a hierarchical value is its own longest static prefix, too.
\<close>

definition varG :: ValueSymbol where
  \<comment> \<open>a static variable without initializer: \<open>logic [7:0] g;\<close>\<close>
  "varG = \<lparr> addr = 13, kind = Variable, name = ''g'', location = 210, procedureKind = Other,
             hierarchicalPath = ''top.g'', isClass = False, selectableWidth = 8,
             hasInitializer = False, lifetime = Static, netType = wireType,
             parentScope = topScope \<rparr>"

definition bodyI :: Symbol where
  "bodyI = \<lparr> addr = 14, kind = InstanceBody, name = ''I'', location = 220,
              procedureKind = Other, hierarchicalPath = ''top.i2'' \<rparr>"

definition mpQ :: ValueSymbol where
  "mpQ = \<lparr> addr = 15, kind = ModportPort, name = ''q'', location = 230, procedureKind = Other,
            hierarchicalPath = ''top.i2.mp.q'', isClass = False, selectableWidth = 8,
            hasInitializer = False, lifetime = Static, netType = wireType,
            parentScope = bodyI \<rparr>"

definition refB :: HierarchicalReference where
  "refB = HierarchicalReference (Some (Symbol.truncate varG)) True
            [(''b'', NameSel ''b''), (''g'', NameSel ''g'')] True bodyI None"

definition connQ :: Expression where
  "connQ = HierarchicalValueExpression varG refB \<lparr> startLoc = 240, endLoc = 243 \<rparr>"

definition cascadeEnv :: AnalysisEnv where
  "cascadeEnv =
     plainEnv\<lparr> visitLSPs :=
                 (\<lambda>e c i. case e of
                             NamedValueExpression s r \<Rightarrow> [(s, e, True)]
                           | HierarchicalValueExpression s h r \<Rightarrow> [(s, e, True)]
                           | _ \<Rightarrow> []),
               getConnectionExpr := (\<lambda>s. if s = mpQ then Some connQ else None),
               retargetIfacePort :=
                 (\<lambda>r i. if r = ifaceRef \<and> i = instU2 then Some mpQ else None) \<rparr>"

definition cloneU2 :: ValueDriver where
  \<comment> \<open>the clone of the driver of \<open>p.w\<close> that \<open>applyInstanceSideEffect\<close> makes for \<open>u2\<close>\<close>
  "cloneU2 = viaPortDriver\<lparr> containingSymbol := asSymbol instU2, isFromSideEffect := True \<rparr>"

definition reprojected :: ValueDriver where
  \<comment> \<open>the driver that the propagation makes from the clone, through the connection of \<open>q\<close>\<close>
  "reprojected = newValueDriver Procedural connQ (asSymbol instU2) {}"

definition noted :: TrackerState where
  \<comment> \<open>the tracker after \<open>u2\<close> was noted as a non-canonical instance of \<open>m\<close>\<close>
  "noted =
     emptyTracker\<lparr> instanceMap :=
                      [(bodyM, \<lparr> nonCanonicalInstances = [instU2], ifacePortDrivers = [] \<rparr>)] \<rparr>"

definition fanned :: TrackerState where
  \<comment> \<open>then, after the procedure that drives \<open>p.w\<close> was added: the clone waits on \<open>q\<close>\<close>
  "fanned =
     emptyTracker\<lparr> symbolDrivers := [varW \<mapsto> [((0, 7), viaPortDriver)], mpQ \<mapsto> []],
                    modportPortDrivers := [(mpQ, [(cloneU2, (0, 7))])],
                    instanceMap :=
                      [(bodyM, \<lparr> nonCanonicalInstances = [instU2],
                                 ifacePortDrivers = [(ifaceRef, viaPortDriver)] \<rparr>)] \<rparr>"

definition cascaded :: TrackerState where
  \<comment> \<open>then, after the propagation: the re-projected driver was noted for \<open>I\<close>\<close>
  "cascaded =
     emptyTracker\<lparr> symbolDrivers :=
                      [varW \<mapsto> [((0, 7), viaPortDriver)], mpQ \<mapsto> [],
                       varG \<mapsto> [((0, 7), reprojected)]],
                    modportPortDrivers := [],
                    instanceMap :=
                      [(bodyM, \<lparr> nonCanonicalInstances = [instU2],
                                 ifacePortDrivers = [(ifaceRef, viaPortDriver)] \<rparr>),
                       (bodyI, \<lparr> nonCanonicalInstances = [],
                                 ifacePortDrivers = [(refB, reprojected)] \<rparr>)] \<rparr>"

text \<open>
  Two ports of \<open>top\<close> whose internal symbol is the variable \<open>w\<close>, neither with an internal
  expression: an input port and an output port.
\<close>

definition inputPortW :: PortSymbol where
  "inputPortW = \<lparr> direction = In, internalExpr = None, internalSymbol = Some varW,
                   portParentScope = topScope \<rparr>"

definition outputPortW :: PortSymbol where
  "outputPortW = \<lparr> direction = Out, internalExpr = None, internalSymbol = Some varW,
                    portParentScope = topScope \<rparr>"





section \<open>Notions used in the statements\<close>

text \<open>
  The initializer driver as the specification describes it: flagged \<open>Initializer\<close>,
  spanning \<open>[0, selectableWidth - 1]\<close> (in the unsigned arithmetic of the bounds), owned by
  the parent scope, its prefix expression the name of the symbol.
\<close>

definition initializerOf :: "ValueSymbol \<Rightarrow> DriverKind \<Rightarrow> DriverBitRange \<times> ValueDriver" where
  "initializerOf symbol k =
     ((0, selectableWidth symbol - 1),
      newValueDriver k
        (NamedValueExpression symbol
           \<lparr> startLoc = location symbol, endLoc = location symbol + length (name symbol) \<rparr>)
        (parentScope symbol) {Initializer})"

text \<open>
  The interval map against which an incoming driver is checked, as the specification
  describes the first-driver initializer synthesis.
\<close>

definition preparedMap :: "ValueSymbol \<Rightarrow> SymbolDriverMap \<Rightarrow> SymbolDriverMap" where
  "preparedMap symbol driverMap =
     (if driverMap = [] \<and> hasInitializer symbol \<and>
         kind symbol \<in> {Net, Variable, ClassProperty, Field}
      then [initializerOf symbol (if kind symbol = Net then Continuous else Procedural)]
      else driverMap)"


text \<open>
  The modport connection graph. A driver recorded against a modport port is re-projected
  through the connection expression of the port. \<open>projectionTargets\<close> collects the symbols
  this can add a driver to: the symbols whose longest static prefixes \<open>visitLSPs\<close> finds
  as lvalues in the expression, and, for a prefix that goes through an interface port, the
  symbols the reference is retargeted to, in any instance, along the chain of port
  connections that \<open>noteInterfacePortDriver\<close> follows (\<open>refChain\<close>). The graph has an edge
  from a modport port to each modport port among the targets of its connection
  expression; \<open>modportRanked\<close> says that \<open>rank\<close> decreases along every edge, which for a
  finite graph is to say that it has no cycle.
\<close>

function refChain :: "HierarchicalReference \<Rightarrow> HierarchicalReference list" where
  "refChain ref =
     ref # (case portConnection ref of
              None \<Rightarrow> []
            | Some connRef \<Rightarrow>
                if isViaIfacePort connRef then refChain (join connRef ref) else [])"
  by pat_completeness auto
termination
  apply (relation "measure connectionDepth")
   apply simp
  subgoal for ref connRef
    by (cases ref; cases connRef) (simp add: join_def)
  done

declare refChain.simps [simp del]

definition sideEffectTargets :: "AnalysisEnv \<Rightarrow> Expression \<Rightarrow> ValueSymbol set" where
  "sideEffectTargets env lsp =
     (case ifacePortScan lsp of
        None \<Rightarrow> {}
      | Some ref \<Rightarrow>
          {t. \<exists>r \<in> set (refChain ref). \<exists>inst. retargetIfacePort env r inst = Some t})"

definition projectionTargets ::
  "AnalysisEnv \<Rightarrow> Expression \<Rightarrow> Symbol \<Rightarrow> Expression option \<Rightarrow> ValueSymbol set" where
  "projectionTargets env expr containing initialLSP =
     (\<Union>v \<in> set (visitLSPs env expr containing initialLSP).
        if snd (snd v) then insert (fst v) (sideEffectTargets env (fst (snd v))) else {})"

definition modportRanked :: "AnalysisEnv \<Rightarrow> (ValueSymbol \<Rightarrow> nat) \<Rightarrow> bool" where
  "modportRanked env rank =
     (\<forall>s expr containing initialLSP t.
        getConnectionExpr env s = Some expr \<longrightarrow>
        t \<in> projectionTargets env expr containing initialLSP \<longrightarrow>
        kind t = ModportPort \<longrightarrow>
        rank t < rank s)"


text \<open>
  The states the tracker can be in: the empty tracker, and every state that a public
  operation returns from such a state.
\<close>

inductive reachable :: "AnalysisEnv \<Rightarrow> TrackerState \<Rightarrow> bool" for env :: AnalysisEnv where
  reach_empty: "reachable env emptyTracker"
| reach_procedure:
    "reachable env st \<Longrightarrow> add_procedure env procedureDrivers st = Inr st' \<Longrightarrow> reachable env st'"
| reach_portConnection:
    "reachable env st \<Longrightarrow> add_portConnection env connection containing st = Inr st'
       \<Longrightarrow> reachable env st'"
| reach_port:
    "reachable env st \<Longrightarrow> add_port env port st = Inr st' \<Longrightarrow> reachable env st'"
| reach_clockVar:
    "reachable env st \<Longrightarrow> add_clockVar env clockVar st = Inr st' \<Longrightarrow> reachable env st'"
| reach_expression:
    "reachable env st \<Longrightarrow> add_expression env expr containing st = Inr st'
       \<Longrightarrow> reachable env st'"
| reach_symbolDriverList:
    "reachable env st \<Longrightarrow> add_symbolDriverList env symbolDriverList st = Inr st'
       \<Longrightarrow> reachable env st'"
| reach_nonCanonical:
    "reachable env st \<Longrightarrow> noteNonCanonicalInstance env instance st = Inr st'
       \<Longrightarrow> reachable env st'"
| reach_propagate:
    "reachable env st \<Longrightarrow> propagateModportDrivers env st = Some (Inr st')
       \<Longrightarrow> reachable env st'"

text \<open>
  What holds in every such state: a symbol of class type and a modport port have no stored
  driver, and the modport table is keyed by modport ports that are not of class type.
\<close>

definition holdsNoDrivers :: "ValueSymbol \<Rightarrow> bool" where
  "holdsNoDrivers s = (isClass s \<or> kind s = ModportPort)"

definition modportKeysSound :: "TrackerState \<Rightarrow> bool" where
  "modportKeysSound st =
     (\<forall>e \<in> set (modportPortDrivers st). \<not> isClass (fst e) \<and> kind (fst e) = ModportPort)"

definition trackerInv :: "TrackerState \<Rightarrow> bool" where
  "trackerInv st =
     ((\<forall>s. holdsNoDrivers s \<longrightarrow> getDrivers st s = []) \<and> modportKeysSound st)"










text \<open>
  Notions for the side effects of interface-port drivers. \<open>sideEffectClone\<close> is the clone
  that a side effect inserts for an instance: the driver, owned by the instance, with
  \<open>isFromSideEffect\<close> set. \<open>cloneRecorded\<close> is the modport table after a side effect: the
  clone joins the drivers waiting on the symbol the reference is retargeted to when that
  symbol is a modport port (not of class type) and the bounds are known, and the table is
  as before otherwise. \<open>withInstance\<close> and \<open>withPortDriver\<close> are the instance map with one
  more non-canonical instance of a body, and with one more interface-port driver for the
  body that owns the port of the reference.
\<close>

definition sideEffectClone :: "ValueDriver \<Rightarrow> InstanceSymbol \<Rightarrow> ValueDriver" where
  "sideEffectClone driver instance =
     driver\<lparr> containingSymbol := asSymbol instance, isFromSideEffect := True \<rparr>"

definition cloneRecorded ::
  "AnalysisEnv \<Rightarrow> HierarchicalReference \<times> ValueDriver \<Rightarrow> InstanceSymbol
     \<Rightarrow> (ValueSymbol \<times> DriverList) list \<Rightarrow> (ValueSymbol \<times> DriverList) list" where
  "cloneRecorded env ifacePortDriver instance table =
     (case retargetIfacePort env (fst ifacePortDriver) instance of
        None \<Rightarrow> table
      | Some t \<Rightarrow>
          (case getBounds env (prefixExpression (snd ifacePortDriver)) (asSymbol instance) t of
             None \<Rightarrow> table
           | Some bounds \<Rightarrow>
               if kind t = ModportPort \<and> \<not> isClass t
               then try_emplace_and_visit t []
                      (\<lambda>l. l @ [(sideEffectClone (snd ifacePortDriver) instance, bounds)]) table
               else table))"

definition withInstance ::
  "Symbol \<Rightarrow> InstanceSymbol \<Rightarrow> (Symbol \<times> InstanceState) list \<Rightarrow> (Symbol \<times> InstanceState) list" where
  "withInstance canonical instance im =
     try_emplace_and_visit canonical emptyInstanceState
       (\<lambda>state. state\<lparr> nonCanonicalInstances := nonCanonicalInstances state @ [instance] \<rparr>) im"

definition withPortDriver ::
  "HierarchicalReference \<Rightarrow> ValueDriver \<Rightarrow> (Symbol \<times> InstanceState) list
     \<Rightarrow> (Symbol \<times> InstanceState) list" where
  "withPortDriver ref driver im =
     try_emplace_and_visit (portScope ref) emptyInstanceState
       (\<lambda>state. state\<lparr> ifacePortDrivers := ifacePortDrivers state @ [(ref, driver)] \<rparr>) im"


text \<open>
  What a port drives: its internal expression when it has one, and otherwise a reference
  by name to its internal symbol, when it has one; the reference covers the name of the
  symbol, from the location of the symbol on.
\<close>

definition internalTarget :: "PortSymbol \<Rightarrow> Expression option" where
  "internalTarget symbol =
     (case internalExpr symbol of
        Some expr \<Rightarrow> Some expr
      | None \<Rightarrow>
          (case internalSymbol symbol of
             Some is \<Rightarrow>
               Some (NamedValueExpression is
                       \<lparr> startLoc = location is, endLoc = location is + length (name is) \<rparr>)
           | None \<Rightarrow> None))"




section \<open>Properties\<close>

subsection \<open>Order of insertion in \<open>handleOverlap\<close>\<close>

text \<open>
  Claim C1. The diagnostic code and the verdict of \<open>handleOverlap\<close> should not depend on
  which of two overlapping drivers was stored first; in particular an input-port driver
  and a plain assignment on a net that is neither a uwire nor a single-driver UDNT should
  give \<open>InputPortCoercion\<close> in both orders. The code chooses between the two coercion
  codes from the flags of the stored driver alone: with the input-port driver stored first
  the report is \<open>InputPortCoercion\<close>, with the assignment stored first it is
  \<open>OutputPortCoercion\<close>.
\<close>

theorem handleOverlap_input_port_inserted_second:
  "reported (handleOverlap netN inputPortDriver assignDriver True False False (Some wireType))
     = Inr ([InputPortCoercion], True) \<and>
   reported (handleOverlap netN assignDriver inputPortDriver True False False (Some wireType))
     = Inr ([OutputPortCoercion], True)"
  by (simp add: reported_def handleOverlap_def netN_def inputPortDriver_def assignDriver_def
        newValueDriver_def isInputPort_def isUnidirectionalPort_def has_def
        getSourceRange_def nameOf_def assignTo_def Let_def)

theorem handleOverlap_input_port_inserted_second_witness:
  "reported (handleOverlap netN inputPortDriver assignDriver True False False (Some wireType))
     \<noteq> reported (handleOverlap netN assignDriver inputPortDriver True False False (Some wireType))"
  using handleOverlap_input_port_inserted_second by simp

subsection \<open>\<open>addDriver\<close> never stops the program\<close>

lemma handleOverlap_Inl:
  "handleOverlap symbol cur driver isNet isUWire isSingleDriverUDNT netTy = Inl f \<Longrightarrow>
   isSingleDriverUDNT \<and> netTy = None"
  by (simp add: handleOverlap_def Let_def split: if_splits)

lemma handleOverlap_total:
  "(isSingleDriverUDNT \<longrightarrow> netTy \<noteq> None) \<Longrightarrow>
   \<exists>ds g. handleOverlap symbol cur driver isNet isUWire isSingleDriverUDNT netTy = Inr (ds, g)"
  by (cases "handleOverlap symbol cur driver isNet isUWire isSingleDriverUDNT netTy")
     (auto dest: handleOverlap_Inl)

lemma overlapScan_total:
  "(isSingleDriverUDNT \<longrightarrow> netTy \<noteq> None) \<Longrightarrow>
   \<exists>ds. overlapScan env symbol driver isNet isUWire isSingleDriverUDNT netTy checkOverlap es
          = Inr ds"
proof (induction es)
  case Nil
  show ?case by simp
next
  case (Cons e es)
  from Cons.prems obtain ds g where
    h: "handleOverlap symbol (snd e) driver isNet isUWire isSingleDriverUDNT netTy = Inr (ds, g)"
    using handleOverlap_total by blast
  from Cons obtain ds' where
    r: "overlapScan env symbol driver isNet isUWire isSingleDriverUDNT netTy checkOverlap es
          = Inr ds'"
    by blast
  show ?case by (simp add: h r)
qed

lemma overlapReports_total: "\<exists>ds. overlapReports env symbol driver bounds driverMap = Inr ds"
  unfolding overlapReports_def Let_def by (rule overlapScan_total) simp

lemma overlapReports_Nil [simp]: "overlapReports env symbol driver bounds [] = Inr []"
  by (simp add: overlapReports_def IntervalMap_find_def)

lemma initializerDrivers_prepared: "initializerDrivers symbol [] = preparedMap symbol []"
  by (simp add: initializerDrivers_def preparedMap_def addInitializer_def initializerOf_def
      IntervalMap_insert_def Let_def split: SymbolKind.splits)

lemma preparedMap_nonempty: "driverMap \<noteq> [] \<Longrightarrow> preparedMap symbol driverMap = driverMap"
  by (simp add: preparedMap_def)

lemma addDriver_stored:
  assumes "\<not> isClass symbol" "kind symbol \<noteq> ModportPort"
    and "overlapReports env symbol driver bounds (preparedMap symbol driverMap) = Inr ds"
  shows "addDriver env symbol driverMap driver bounds st =
           Inr (if isFromSideEffect driver then None
                else ifacePortScan (prefixExpression driver),
                preparedMap symbol driverMap @ [(bounds, driver)],
                st\<lparr> diags := diags st @ ds \<rparr>)"
proof (cases "driverMap = []")
  case True
  show ?thesis
  proof (cases "preparedMap symbol [] = []")
    case True
    with assms(3) \<open>driverMap = []\<close> have "ds = []" by simp
    with True assms(1,2) \<open>driverMap = []\<close> show ?thesis
      by (simp add: addDriver_def initializerDrivers_prepared Let_def IntervalMap_insert_def)
  next
    case False
    with assms \<open>driverMap = []\<close> show ?thesis
      by (simp add: addDriver_def initializerDrivers_prepared Let_def IntervalMap_insert_def)
  qed
next
  case False
  with assms show ?thesis
    by (simp add: addDriver_def preparedMap_nonempty Let_def IntervalMap_insert_def)
qed

lemma addDriver_modport:
  assumes "\<not> isClass symbol" "kind symbol = ModportPort"
  shows "addDriver env symbol driverMap driver bounds st =
           Inr (if isFromSideEffect driver then None
                else ifacePortScan (prefixExpression driver),
                driverMap,
                st\<lparr> modportPortDrivers :=
                      try_emplace_and_visit symbol [] (\<lambda>l. l @ [(driver, bounds)])
                        (modportPortDrivers st) \<rparr>)"
  using assms by (simp add: addDriver_def Let_def)

lemma addDriver_class:
  "isClass symbol \<Longrightarrow> addDriver env symbol driverMap driver bounds st = Inr (None, driverMap, st)"
  by (simp add: addDriver_def)

subsection \<open>First-driver initializer synthesis\<close>

text \<open>
  Claim C6, as amended. For a symbol whose declared type is not a class type, \<open>addDriver\<close>
  synthesizes an \<open>Initializer\<close>-flagged driver exactly when the interval map is empty, the
  symbol has an initializer and its kind is \<open>Net\<close>, \<open>Variable\<close>, \<open>ClassProperty\<close> or
  \<open>Field\<close>: the driver spans \<open>[0, selectableWidth - 1]\<close>, is \<open>Continuous\<close> for a net and
  \<open>Procedural\<close> otherwise, and is in the map before the incoming driver is checked against
  it and stored behind it. In every other case the map is checked as it stands. (A driver
  of a modport port goes to the modport table and the map is left alone.)
\<close>

theorem addDriver_initializer_synthesis:
  assumes "\<not> isClass symbol"
  shows "\<exists>ref ds.
           overlapReports env symbol driver bounds (preparedMap symbol driverMap) = Inr ds \<and>
           addDriver env symbol driverMap driver bounds st =
             (if kind symbol = ModportPort
              then Inr (ref, driverMap,
                        st\<lparr> modportPortDrivers :=
                              try_emplace_and_visit symbol [] (\<lambda>l. l @ [(driver, bounds)])
                                (modportPortDrivers st) \<rparr>)
              else Inr (ref, preparedMap symbol driverMap @ [(bounds, driver)],
                        st\<lparr> diags := diags st @ ds \<rparr>))"
proof -
  obtain ds where
    ds: "overlapReports env symbol driver bounds (preparedMap symbol driverMap) = Inr ds"
    using overlapReports_total by blast
  show ?thesis
  proof (cases "kind symbol = ModportPort")
    case True
    with assms ds show ?thesis by (simp add: addDriver_modport)
  next
    case False
    with assms ds show ?thesis by (simp add: addDriver_stored)
  qed
qed

lemma varV_prepared: "preparedMap varV [] = [initializerOf varV Procedural]"
  by (simp add: preparedMap_def varV_def)

lemma varV_reports:
  "overlapReports plainEnv varV (combDriver varV) (0, 7) [initializerOf varV Procedural] = Inr []"
  by (simp add: overlapReports_def IntervalMap_find_def overlaps_def initializerOf_def
      isProblem_def isUnidirectionalPort_def has_def newValueDriver_def combDriver_def varV_def
      VariableSymbol_isKind_def shouldIgnore_def)

text \<open>
  The variable \<open>logic [7:0] v = 0;\<close> driven from an \<open>always_comb\<close> block: the first
  insertion stores the procedural initializer driver over \<open>[0, 7]\<close> and then the driver.
\<close>

theorem addDriver_initializer_synthesis_witness:
  "\<not> isClass varV \<and>
   (\<exists>ref. addDriver plainEnv varV [] (combDriver varV) (0, 7) emptyTracker =
      Inr (ref, [initializerOf varV Procedural, ((0, 7), combDriver varV)], emptyTracker))"
proof -
  have c: "\<not> isClass varV" by (simp add: varV_def)
  have k: "kind varV \<noteq> ModportPort" by (simp add: varV_def)
  from addDriver_initializer_synthesis
         [OF c, of plainEnv "combDriver varV" "(0, 7)" "[]" emptyTracker]
  show ?thesis using c k by (auto simp: varV_prepared varV_reports)
qed

text \<open>
  The claim as it was stated does not except class types. A variable of a class type with
  an initializer and an empty interval map meets its three conditions, and no initializer
  driver is synthesized: \<open>addDriver\<close> returns at once and the map stays empty.
\<close>

theorem class_typed_variable_no_initializer_driver:
  "hasInitializer classVar \<and> kind classVar = Variable \<and>
   addDriver plainEnv classVar [] (combDriver classVar) (0, 0) emptyTracker
     = Inr (None, [], emptyTracker)"
  by (simp add: addDriver_def classVar_def)

subsection \<open>A net with an initializer and one continuous assignment\<close>

lemma overlapScan_no_problem:
  "\<forall>e \<in> set es. \<not> isProblem env checkOverlap (snd e) driver \<Longrightarrow>
   overlapScan env symbol driver isNet isUWire isSingleDriverUDNT netTy checkOverlap es = Inr []"
  by (induction es) auto

text \<open>
  Claim C2, as amended. For a net with an initializer that is neither a uwire nor a
  single-driver user-defined net, the first insertion of a driver that is not a
  unidirectional port synthesizes the \<open>Continuous\<close>, \<open>Initializer\<close>-flagged driver over
  \<open>[0, selectableWidth - 1]\<close>, stores the explicit driver behind it, and reports nothing:
  the overlap of the two is not a problem on such a net.
\<close>

theorem plain_net_initializer_no_report:
  assumes "kind symbol = Net" and "\<not> isClass symbol" and "hasInitializer symbol"
    and "netKind (netType symbol) \<noteq> UWire"
    and "netKind (netType symbol) = UserDefined \<longrightarrow> hasResolutionFunction (netType symbol)"
    and "\<not> isUnidirectionalPort driver"
  shows "\<exists>ref. addDriver env symbol [] driver bounds st =
           Inr (ref, [initializerOf symbol Continuous, (bounds, driver)], st)"
proof -
  have p: "preparedMap symbol [] = [initializerOf symbol Continuous]"
    using assms by (simp add: preparedMap_def)
  have "\<not> isProblem env False (snd (initializerOf symbol Continuous)) driver"
    using assms(6)
    by (simp add: isProblem_def initializerOf_def isUnidirectionalPort_def has_def
        newValueDriver_def)
  then have "overlapReports env symbol driver bounds [initializerOf symbol Continuous] = Inr []"
    using assms(1,4,5)
    by (auto simp: overlapReports_def VariableSymbol_isKind_def IntervalMap_find_def
        intro!: overlapScan_no_problem)
  with assms(1,2) p show ?thesis
    by (simp add: addDriver_stored)
qed

lemma netN_facts:
  "kind netN = Net" "\<not> isClass netN" "hasInitializer netN" "netKind (netType netN) \<noteq> UWire"
  "netKind (netType netN) = UserDefined \<longrightarrow> hasResolutionFunction (netType netN)"
  by (simp_all add: netN_def wireType_def)

lemma assignDriver_no_port: "\<not> isUnidirectionalPort assignDriver"
  by (simp add: isUnidirectionalPort_def has_def assignDriver_def newValueDriver_def)

text \<open>The net \<open>wire [3:0] n = 4'b0;\<close> and the driver of \<open>assign n = 4'b1;\<close>.\<close>

theorem plain_net_initializer_no_report_witness:
  "initializerOf netN Continuous =
     ((0, 3), newValueDriver Continuous (nameOf netN) topScope {Initializer}) \<and>
   (\<exists>ref. addDriver plainEnv netN [] assignDriver (0, 3) emptyTracker =
      Inr (ref, [initializerOf netN Continuous, ((0, 3), assignDriver)], emptyTracker))"
proof -
  from plain_net_initializer_no_report
         [OF netN_facts assignDriver_no_port, of plainEnv "(0, 3)" emptyTracker]
  show ?thesis by (simp add: initializerOf_def nameOf_def netN_def)
qed

lemma ifacePortScan_NamedValue [simp]: "ifacePortScan (NamedValueExpression s r) = None"
  by (simp add: ifacePortScan_def)

lemma addDriver_ref:
  assumes "addDriver env symbol driverMap driver bounds st = Inr (r, driverMap', st')"
  shows "r = (if isClass symbol \<or> isFromSideEffect driver then None
              else ifacePortScan (prefixExpression driver))"
proof (cases "isClass symbol")
  case True
  with assms show ?thesis by (simp add: addDriver_class)
next
  case False
  show ?thesis
  proof (cases "kind symbol = ModportPort")
    case True
    with assms \<open>\<not> isClass symbol\<close> show ?thesis by (simp add: addDriver_modport)
  next
    case False
    obtain ds where
      "overlapReports env symbol driver bounds (preparedMap symbol driverMap) = Inr ds"
      using overlapReports_total by blast
    with assms \<open>\<not> isClass symbol\<close> False show ?thesis by (simp add: addDriver_stored)
  qed
qed

lemma netN_reports:
  "overlapReports plainEnv netN assignDriver (0, 3) [initializerOf netN Continuous] = Inr []"
  by (simp add: overlapReports_def IntervalMap_find_def overlaps_def initializerOf_def
      isProblem_def isUnidirectionalPort_def has_def newValueDriver_def assignDriver_def
      netN_def wireType_def VariableSymbol_isKind_def)

lemma addDriver_netN:
  "addDriver plainEnv netN [] assignDriver (0, 3) emptyTracker =
     Inr (None, [initializerOf netN Continuous, ((0, 3), assignDriver)], emptyTracker)"
proof -
  have p: "preparedMap netN [] = [initializerOf netN Continuous]"
    by (simp add: preparedMap_def netN_def)
  have "addDriver plainEnv netN [] assignDriver (0, 3) emptyTracker =
          Inr (if isFromSideEffect assignDriver then None
               else ifacePortScan (prefixExpression assignDriver),
               preparedMap netN [] @ [((0, 3), assignDriver)],
               emptyTracker\<lparr> diags := diags emptyTracker @ [] \<rparr>)"
    by (rule addDriver_stored) (simp_all add: netN_facts p netN_reports)
  then show ?thesis
    by (simp add: p assignDriver_def newValueDriver_def assignTo_def)
qed

text \<open>
  The claim as it was stated expects \<open>MultipleContAssigns\<close> for \<open>wire [3:0] n = 4'b0;\<close>
  with \<open>assign n = 4'b1;\<close>. The run from the empty tracker stores the initializer driver and
  the driver of the assignment, both over \<open>[0, 3]\<close>, and reports nothing.
\<close>

theorem wire_initializer_and_assign_report_nothing:
  "outcome (add_expression plainEnv (assignTo netN 40) topScope emptyTracker) netN =
     Inr ([(snd (initializerOf netN Continuous), (0, 3)), (assignDriver, (0, 3))], [])"
proof -
  have v: "visitLSPs plainEnv (assignTo netN 40) topScope None
             = [(netN, assignTo netN 40, True)]"
    by (simp add: plainEnv_def assignTo_def)
  have b: "getBounds plainEnv (assignTo netN 40) topScope netN = Some (0, 3)"
    by (simp add: plainEnv_def netN_def)
  have d: "newValueDriver Continuous (assignTo netN 40) topScope {} = assignDriver"
    by (simp add: assignDriver_def)
  have e: "symbolDrivers emptyTracker netN = None" "diags emptyTracker = []"
    by (simp_all add: emptyTracker_def)
  have i: "fst (initializerOf netN Continuous) = (0, 3)"
    by (simp add: initializerOf_def netN_def)
  show ?thesis
    by (simp add: outcome_def add_expression_def addDrivers_def addDrivers_visit_def v b d e i
        symbolDrivers_visit_def addDriver_netN getDrivers_def)
qed

subsection \<open>Drivers from side effects\<close>

lemma addDriver_total:
  "\<exists>r driverMap' st'. addDriver env symbol driverMap driver bounds st = Inr (r, driverMap', st')"
proof (cases "isClass symbol")
  case True
  then show ?thesis by (simp add: addDriver_class)
next
  case False
  show ?thesis
  proof (cases "kind symbol = ModportPort")
    case True
    with \<open>\<not> isClass symbol\<close> show ?thesis by (simp add: addDriver_modport)
  next
    case False
    obtain ds where
      "overlapReports env symbol driver bounds (preparedMap symbol driverMap) = Inr ds"
      using overlapReports_total by blast
    with \<open>\<not> isClass symbol\<close> False show ?thesis by (simp add: addDriver_stored)
  qed
qed

lemma addDriver_frame:
  assumes "addDriver env symbol driverMap driver bounds st = Inr (r, driverMap', st')"
  shows "instanceMap st' = instanceMap st \<and> symbolDrivers st' = symbolDrivers st"
proof (cases "isClass symbol")
  case True
  with assms show ?thesis by (simp add: addDriver_class)
next
  case False
  show ?thesis
  proof (cases "kind symbol = ModportPort")
    case True
    with assms \<open>\<not> isClass symbol\<close> show ?thesis by (auto simp: addDriver_modport)
  next
    case False
    obtain ds where
      "overlapReports env symbol driver bounds (preparedMap symbol driverMap) = Inr ds"
      using overlapReports_total by blast
    with assms \<open>\<not> isClass symbol\<close> False show ?thesis by (auto simp: addDriver_stored)
  qed
qed

lemma addDriver_table:
  assumes "addDriver env symbol driverMap driver bounds st = Inr (r, driverMap', st')"
  shows "modportPortDrivers st' =
           (if kind symbol = ModportPort \<and> \<not> isClass symbol
            then try_emplace_and_visit symbol [] (\<lambda>l. l @ [(driver, bounds)])
                   (modportPortDrivers st)
            else modportPortDrivers st)"
proof (cases "isClass symbol")
  case True
  with assms show ?thesis by (simp add: addDriver_class)
next
  case False
  show ?thesis
  proof (cases "kind symbol = ModportPort")
    case True
    with assms \<open>\<not> isClass symbol\<close> show ?thesis by (auto simp: addDriver_modport)
  next
    case False
    obtain ds where
      "overlapReports env symbol driver bounds (preparedMap symbol driverMap) = Inr ds"
      using overlapReports_total by blast
    with assms \<open>\<not> isClass symbol\<close> False show ?thesis by (auto simp: addDriver_stored)
  qed
qed

lemma applyInstanceSideEffect_effect:
  "\<exists>st'. applyInstanceSideEffect env ifacePortDriver instance st = Inr st' \<and>
         instanceMap st' = instanceMap st \<and>
         modportPortDrivers st' =
           cloneRecorded env ifacePortDriver instance (modportPortDrivers st)"
proof (cases "retargetIfacePort env (fst ifacePortDriver) instance")
  case None
  then show ?thesis by (simp add: applyInstanceSideEffect_def cloneRecorded_def)
next
  case (Some valueSym)
  let ?driver = "(snd ifacePortDriver)
                   \<lparr> containingSymbol := asSymbol instance, isFromSideEffect := True \<rparr>"
  have pe: "prefixExpression ?driver = prefixExpression (snd ifacePortDriver)" by simp
  show ?thesis
  proof (cases "getBounds env (prefixExpression (snd ifacePortDriver)) (asSymbol instance) valueSym")
    case None
    with Some show ?thesis
      by (simp add: applyInstanceSideEffect_def Let_def cloneRecorded_def)
  next
    case (Some bounds)
    let ?dm = "case symbolDrivers st valueSym of None \<Rightarrow> [] | Some m \<Rightarrow> m"
    obtain r driverMap' st' where
      a: "addDriver env valueSym ?dm ?driver bounds st = Inr (r, driverMap', st')"
      using addDriver_total by blast
    from addDriver_ref[OF a] have r: "r = None" by simp
    from a r addDriver_frame[OF a] addDriver_table[OF a] Some
      \<open>retargetIfacePort env (fst ifacePortDriver) instance = Some valueSym\<close>
    show ?thesis
      by (simp add: applyInstanceSideEffect_def Let_def symbolDrivers_visit_def
          cloneRecorded_def sideEffectClone_def)
  qed
qed

lemma foldF_total_frame:
  assumes "\<And>x s. \<exists>s'. f x s = Inr s' \<and> I s' = I s"
  shows "\<exists>s'. foldF f xs s = Inr s' \<and> I s' = I s"
proof (induction xs arbitrary: s)
  case Nil
  show ?case by simp
next
  case (Cons x xs)
  from assms[of x s] obtain s1 where s1: "f x s = Inr s1" "I s1 = I s" by blast
  from Cons.IH[of s1] obtain s2 where "foldF f xs s1 = Inr s2" "I s2 = I s1" by blast
  with s1 show ?case by simp
qed

lemma noteNonCanonicalInstance_effect:
  assumes "canonicalBody instance = Some canonical"
  shows "\<exists>st'. noteNonCanonicalInstance env instance st = Inr st' \<and>
           instanceMap st' = withInstance canonical instance (instanceMap st)"
proof -
  let ?im = "withInstance canonical instance (instanceMap st)"
  let ?copied = "case map_of ?im canonical of None \<Rightarrow> [] | Some state \<Rightarrow> ifacePortDrivers state"
  have "\<exists>s'. foldF (\<lambda>ifacePortDriver. applyInstanceSideEffect env ifacePortDriver instance)
               ?copied (st\<lparr> instanceMap := ?im \<rparr>) = Inr s' \<and>
             instanceMap s' = instanceMap (st\<lparr> instanceMap := ?im \<rparr>)"
    by (rule foldF_total_frame) (use applyInstanceSideEffect_effect in blast)
  with assms show ?thesis
    by (simp add: noteNonCanonicalInstance_def Let_def withInstance_def)
qed

lemma noteInterfacePortDriver_effect:
  "noteInterfacePortDriver env ref driver st = Inr st' \<Longrightarrow>
   instanceMap st' = foldl (\<lambda>im r. withPortDriver r driver im) (instanceMap st) (refChain ref)"
proof (induction env ref driver st arbitrary: st' rule: noteInterfacePortDriver.induct)
  case (1 env ref driver st)
  let ?im = "try_emplace_and_visit (portScope ref) emptyInstanceState
               (\<lambda>state. state\<lparr> ifacePortDrivers := ifacePortDrivers state @ [(ref, driver)] \<rparr>)
               (instanceMap st)"
  let ?nc = "case map_of ?im (portScope ref) of None \<Rightarrow> [] | Some state \<Rightarrow> nonCanonicalInstances state"
  note eq = "1.prems"[unfolded noteInterfacePortDriver.simps[of env ref driver st]]
  from eq have ok: "\<not> (\<not> isViaIfacePort ref \<or> target ref = None \<or> \<not> hasExpr ref)"
      "\<not> kind (portScope ref) \<noteq> InstanceBody"
    by (auto split: if_splits)
  from ok have ok': "isViaIfacePort ref" "target ref \<noteq> None" "hasExpr ref"
      "kind (portScope ref) = InstanceBody"
    by auto
  from eq have eq2:
    "(case foldF (\<lambda>inst. applyInstanceSideEffect env (ref, driver) inst) ?nc (st\<lparr> instanceMap := ?im \<rparr>) of
        Inl f \<Rightarrow> Inl f
      | Inr st' \<Rightarrow>
          (case portConnection ref of
             None \<Rightarrow> Inr st'
           | Some connRef \<Rightarrow>
               if isViaIfacePort connRef
               then noteInterfacePortDriver env (join connRef ref) driver st'
               else Inr st')) = Inr st'"
    by (simp add: ok' Let_def)
  then obtain st1 where
    f: "foldF (\<lambda>inst. applyInstanceSideEffect env (ref, driver) inst) ?nc (st\<lparr> instanceMap := ?im \<rparr>) = Inr st1"
    by (auto split: sum.splits)
  have "\<exists>s'. foldF (\<lambda>inst. applyInstanceSideEffect env (ref, driver) inst) ?nc
               (st\<lparr> instanceMap := ?im \<rparr>) = Inr s' \<and>
             instanceMap s' = instanceMap (st\<lparr> instanceMap := ?im \<rparr>)"
    by (rule foldF_total_frame) (use applyInstanceSideEffect_effect in blast)
  with f have i1: "instanceMap st1 = withPortDriver ref driver (instanceMap st)"
    by (simp add: withPortDriver_def)
  show ?case
  proof (cases "portConnection ref")
    case None
    with eq2 f have "st' = st1" by simp
    with i1 None show ?thesis by (subst refChain.simps) simp
  next
    case (Some connRef)
    show ?thesis
    proof (cases "isViaIfacePort connRef")
      case False
      with eq2 f Some have "st' = st1" by simp
      with i1 Some False show ?thesis by (subst refChain.simps) simp
    next
      case True
      with eq2 f Some
      have r: "noteInterfacePortDriver env (join connRef ref) driver st1 = Inr st'"
        by simp
      from "1.IH"[OF ok refl refl f Some True r] i1 Some True
      show ?thesis by (subst refChain.simps) simp
    qed
  qed
qed

text \<open>
  Claim C3, as it holds. For a driver whose \<open>isFromSideEffect\<close> flag is set, \<open>addDriver\<close>
  skips the interface-port scan and returns no hierarchical reference, and it leaves the
  instance map alone. \<open>applyInstanceSideEffect\<close> inserts a clone with the flag set: it
  never fails its assertion (every run ends in \<open>Inr\<close>), it adds nothing to the instance
  map, and it leaves the clone in the modport table exactly when the target of the clone is
  a modport port. So a fan-out adds no entry for a clone: \<open>noteNonCanonicalInstance\<close>,
  which replays the recorded drivers for the new instance, always returns and only adds the
  instance to its canonical body; \<open>noteInterfacePortDriver\<close>, which fans the driver out to
  the non-canonical instances, adds the driver it was given, once for each reference on the
  chain of port connections, and nothing else. What is not excluded is a clone that waits
  in the modport table: the propagation re-submits it as a fresh driver without the flag.
\<close>

theorem side_effect_driver_adds_no_entry:
  "(isFromSideEffect driver \<longrightarrow>
      (\<exists>driverMap' st'.
          addDriver env symbol driverMap driver bounds st = Inr (None, driverMap', st') \<and>
          instanceMap st' = instanceMap st)) \<and>
   (\<exists>st'. applyInstanceSideEffect env ifacePortDriver instance st = Inr st' \<and>
          instanceMap st' = instanceMap st \<and>
          modportPortDrivers st' =
            cloneRecorded env ifacePortDriver instance (modportPortDrivers st)) \<and>
   (\<forall>canonical. canonicalBody instance = Some canonical \<longrightarrow>
      (\<exists>st'. noteNonCanonicalInstance env instance st = Inr st' \<and>
             instanceMap st' = withInstance canonical instance (instanceMap st))) \<and>
   (\<forall>st'. noteInterfacePortDriver env ref original st = Inr st' \<longrightarrow>
      instanceMap st' =
        foldl (\<lambda>im r. withPortDriver r original im) (instanceMap st) (refChain ref))"
proof -
  have 1: "isFromSideEffect driver \<longrightarrow>
      (\<exists>driverMap' st'.
          addDriver env symbol driverMap driver bounds st = Inr (None, driverMap', st') \<and>
          instanceMap st' = instanceMap st)"
  proof
    assume side: "isFromSideEffect driver"
    obtain r driverMap' st' where
      a: "addDriver env symbol driverMap driver bounds st = Inr (r, driverMap', st')"
      using addDriver_total by blast
    from addDriver_ref[OF a] side have "r = None" by simp
    with a addDriver_frame[OF a] show "\<exists>driverMap' st'.
          addDriver env symbol driverMap driver bounds st = Inr (None, driverMap', st') \<and>
          instanceMap st' = instanceMap st" by blast
  qed
  from 1 applyInstanceSideEffect_effect[of env ifacePortDriver "instance" st]
    noteNonCanonicalInstance_effect[of "instance" _ env st]
    noteInterfacePortDriver_effect[of env ref original st]
  show ?thesis by blast
qed

text \<open>
  The driver of \<open>p.w\<close> goes through the interface port of \<open>m\<close>; \<open>u2\<close> is noted as a
  non-canonical instance of \<open>m\<close>. The clone for \<open>u2\<close> lands on the modport port \<open>q\<close>: it
  is recorded in the modport table, and the instance map gets the entry of the driver
  itself and none for the clone.
\<close>

lemma newValueDriver_sel [simp]:
  "prefixExpression (newValueDriver k e c fl) = e"
  "containingSymbol (newValueDriver k e c fl) = c"
  "flags (newValueDriver k e c fl) = fl"
  "driverKind (newValueDriver k e c fl) = k"
  "isFromSideEffect (newValueDriver k e c fl) = False"
  "procCallExpression (newValueDriver k e c fl) = None"
  by (simp_all add: newValueDriver_def)

lemma cascade_facts:
  "\<not> isClass mpQ" "kind mpQ = ModportPort" "selectableWidth mpQ = 8"
  "\<not> isClass varG" "kind varG = Variable" "selectableWidth varG = 8" "\<not> hasInitializer varG"
  "\<not> isClass varW" "kind varW = Variable" "selectableWidth varW = 8" "\<not> hasInitializer varW"
  "kind bodyM = InstanceBody" "kind bodyI = InstanceBody" "canonicalBody instU2 = Some bodyM"
  by (simp_all add: mpQ_def varG_def varW_def bodyM_def bodyI_def instU2_def)

lemma cascade_distinct:
  "mpQ \<noteq> varW" "mpQ \<noteq> varG" "varW \<noteq> mpQ" "varW \<noteq> varG" "varG \<noteq> mpQ" "varG \<noteq> varW"
  "bodyM \<noteq> bodyI" "bodyI \<noteq> bodyM" "refB \<noteq> ifaceRef"
  by (simp_all add: mpQ_def varG_def varW_def bodyM_def bodyI_def refB_def ifaceRef_def)

lemma ref_facts:
  "isViaIfacePort ifaceRef" "target ifaceRef \<noteq> None" "hasExpr ifaceRef"
  "portScope ifaceRef = bodyM" "portConnection ifaceRef = None"
  "isViaIfacePort refB" "target refB \<noteq> None" "hasExpr refB"
  "portScope refB = bodyI" "portConnection refB = None"
  by (simp_all add: ifaceRef_def refB_def)

lemma cascadeEnv_sel:
  "visitLSPs cascadeEnv connQ c i = [(varG, connQ, True)]"
  "getBounds cascadeEnv lsp c s = Some (0, selectableWidth s - 1)"
  "getConnectionExpr cascadeEnv mpQ = Some connQ"
  "retargetIfacePort cascadeEnv ifaceRef instU2 = Some mpQ"
  "retargetIfacePort cascadeEnv refB i' = None"
  by (simp_all add: cascadeEnv_def plainEnv_def connQ_def cascade_distinct)

lemma ifacePortScan_hier [simp]:
  "ifacePortScan (HierarchicalValueExpression s h r) = (if isViaIfacePort h then Some h else None)"
  by (simp add: ifacePortScan_def)

lemma scan_facts:
  "ifacePortScan (prefixExpression viaPortDriver) = Some ifaceRef"
  "ifacePortScan connQ = Some refB"
  "prefixExpression viaPortDriver =
     HierarchicalValueExpression varW ifaceRef \<lparr> startLoc = 130, endLoc = 133 \<rparr>"
  "driverKind viaPortDriver = Procedural" "flags viaPortDriver = {}"
  "\<not> isFromSideEffect viaPortDriver"
  by (simp_all add: ifacePortScan_def viaPortDriver_def connQ_def ifaceRef_def refB_def)

lemma note_u2: "noteNonCanonicalInstance cascadeEnv instU2 emptyTracker = Inr noted"
  by (simp add: noteNonCanonicalInstance_def cascade_facts try_emplace_and_visit_def
      emptyTracker_def emptyInstanceState_def noted_def)

lemma side_effect_u2:
  "applyInstanceSideEffect cascadeEnv (ifaceRef, viaPortDriver) instU2 st =
     Inr (st\<lparr> symbolDrivers :=
                 (symbolDrivers st)
                   (mpQ \<mapsto> (case symbolDrivers st mpQ of None \<Rightarrow> [] | Some m \<Rightarrow> m)),
               modportPortDrivers :=
                 try_emplace_and_visit mpQ [] (\<lambda>l. l @ [(cloneU2, (0, 7))])
                   (modportPortDrivers st) \<rparr>)"
  by (simp add: applyInstanceSideEffect_def cascadeEnv_sel cascade_facts Let_def
      symbolDrivers_visit_def addDriver_modport cloneU2_def)

lemma note_viaPort:
  "instanceMap st = [(bodyM, \<lparr> nonCanonicalInstances = [instU2], ifacePortDrivers = [] \<rparr>)] \<Longrightarrow>
   noteInterfacePortDriver cascadeEnv ifaceRef viaPortDriver st =
     Inr (st\<lparr> instanceMap :=
                 [(bodyM, \<lparr> nonCanonicalInstances = [instU2],
                            ifacePortDrivers = [(ifaceRef, viaPortDriver)] \<rparr>)],
               symbolDrivers :=
                 (symbolDrivers st)
                   (mpQ \<mapsto> (case symbolDrivers st mpQ of None \<Rightarrow> [] | Some m \<Rightarrow> m)),
               modportPortDrivers :=
                 try_emplace_and_visit mpQ [] (\<lambda>l. l @ [(cloneU2, (0, 7))])
                   (modportPortDrivers st) \<rparr>)"
  by (subst noteInterfacePortDriver.simps)
     (simp add: ref_facts cascade_facts try_emplace_and_visit_def side_effect_u2 Let_def)

lemma add_viaPort:
  "addDriver cascadeEnv varW [] viaPortDriver (0, 7) st =
     Inr (Some ifaceRef, [((0, 7), viaPortDriver)], st\<lparr> diags := diags st @ [] \<rparr>)"
proof -
  have p: "preparedMap varW [] = []" by (simp add: preparedMap_def cascade_facts)
  have "addDriver cascadeEnv varW [] viaPortDriver (0, 7) st =
          Inr (if isFromSideEffect viaPortDriver then None
               else ifacePortScan (prefixExpression viaPortDriver),
               preparedMap varW [] @ [((0, 7), viaPortDriver)],
               st\<lparr> diags := diags st @ [] \<rparr>)"
    by (rule addDriver_stored) (simp_all add: cascade_facts p)
  then show ?thesis by (simp add: p scan_facts ref_facts)
qed

lemma procedure_from_noted:
  "add_procedure cascadeEnv [(varW, [(viaPortDriver, (0, 7))])] noted = Inr fanned"
  by (simp add: add_procedure_def add_procedure_visit_def symbolDrivers_visit_def
      add_viaPort note_viaPort noted_def fanned_def emptyTracker_def
      try_emplace_and_visit_def cascade_distinct)

lemma add_reprojected:
  "addDriver cascadeEnv varG [] reprojected (0, 7) st =
     Inr (Some refB, [((0, 7), reprojected)], st\<lparr> diags := diags st @ [] \<rparr>)"
proof -
  have p: "preparedMap varG [] = []" by (simp add: preparedMap_def cascade_facts)
  have "addDriver cascadeEnv varG [] reprojected (0, 7) st =
          Inr (if isFromSideEffect reprojected then None
               else ifacePortScan (prefixExpression reprojected),
               preparedMap varG [] @ [((0, 7), reprojected)],
               st\<lparr> diags := diags st @ [] \<rparr>)"
    by (rule addDriver_stored) (simp_all add: cascade_facts p)
  then show ?thesis by (simp add: p scan_facts reprojected_def)
qed

lemma note_reprojected:
  "map_of (instanceMap st) bodyI = None \<Longrightarrow>
   noteInterfacePortDriver cascadeEnv refB reprojected st =
     Inr (st\<lparr> instanceMap :=
                 instanceMap st @
                 [(bodyI, \<lparr> nonCanonicalInstances = [],
                            ifacePortDrivers = [(refB, reprojected)] \<rparr>)] \<rparr>)"
  by (subst noteInterfacePortDriver.simps)
     (simp add: ref_facts cascade_facts try_emplace_and_visit_def emptyInstanceState_def Let_def
        map_add_def)

lemma pass_from_fanned:
  "propagatePass cascadeEnv (modportPortDrivers fanned) (fanned\<lparr>modportPortDrivers := []\<rparr>)
     = Inr cascaded"
  by (simp add: propagatePass_def fanned_def cascaded_def cascadeEnv_sel
      propagateModportDriver_def cloneU2_def scan_facts addDrivers_def addDrivers_visit_def
      cascade_facts symbolDrivers_visit_def add_reprojected[unfolded reprojected_def]
      note_reprojected[unfolded reprojected_def] reprojected_def
      emptyTracker_def cascade_distinct Let_def)

lemma cascade_tables:
  "modportPortDrivers fanned \<noteq> []" "modportPortDrivers cascaded = []"
  by (simp_all add: fanned_def cascaded_def)

lemma propagate_from_fanned: "propagateModportDrivers cascadeEnv fanned = Some (Inr cascaded)"
proof -
  have 2: "propagateModportDrivers cascadeEnv cascaded = Some (Inr cascaded)"
    by (subst propagateModportDrivers.simps) (simp add: cascade_tables cascaded_def)
  show ?thesis
    by (subst propagateModportDrivers.simps) (simp add: cascade_tables pass_from_fanned 2)
qed

lemma refChain_ifaceRef: "refChain ifaceRef = [ifaceRef]"
  by (subst refChain.simps) (simp add: ref_facts)

lemma noted_facts:
  "instanceMap noted = [(bodyM, \<lparr> nonCanonicalInstances = [instU2], ifacePortDrivers = [] \<rparr>)]"
  "modportPortDrivers noted = []"
  by (simp_all add: noted_def emptyTracker_def)

lemma cloneU2_facts:
  "isFromSideEffect cloneU2" "sideEffectClone viaPortDriver instU2 = cloneU2"
  by (simp_all add: cloneU2_def sideEffectClone_def)

theorem side_effect_driver_adds_no_entry_witness:
  "isFromSideEffect cloneU2 \<and>
   (\<exists>driverMap' st'.
      addDriver cascadeEnv mpQ [] cloneU2 (0, 7) noted = Inr (None, driverMap', st') \<and>
      instanceMap st' = instanceMap noted) \<and>
   (\<exists>st'. applyInstanceSideEffect cascadeEnv (ifaceRef, viaPortDriver) instU2 noted = Inr st' \<and>
          instanceMap st' = instanceMap noted \<and>
          modportPortDrivers st' = [(mpQ, [(cloneU2, (0, 7))])]) \<and>
   canonicalBody instU2 = Some bodyM \<and>
   (\<exists>st'. noteNonCanonicalInstance cascadeEnv instU2 noted = Inr st' \<and>
          instanceMap st' =
            [(bodyM, \<lparr> nonCanonicalInstances = [instU2, instU2], ifacePortDrivers = [] \<rparr>)]) \<and>
   (\<exists>st'. noteInterfacePortDriver cascadeEnv ifaceRef viaPortDriver noted = Inr st' \<and>
          instanceMap st' =
            [(bodyM, \<lparr> nonCanonicalInstances = [instU2],
                       ifacePortDrivers = [(ifaceRef, viaPortDriver)] \<rparr>)])"
  using side_effect_driver_adds_no_entry
          [of cloneU2 cascadeEnv mpQ "[]" "(0, 7)" noted "(ifaceRef, viaPortDriver)" instU2
              ifaceRef viaPortDriver]
    note_viaPort[of noted]
  by (simp add: cloneU2_facts noted_facts cascade_facts cloneRecorded_def cascadeEnv_sel
      withInstance_def withPortDriver_def try_emplace_and_visit_def refChain_ifaceRef
      ref_facts)

text \<open>
  The run that the claim excludes. After \<open>u2\<close> was noted and the procedure that drives
  \<open>p.w\<close> was added, the clone waits on the modport port \<open>q\<close> with its flag set. The
  propagation re-submits it through the connection \<open>b.g\<close> of \<open>q\<close> as a fresh driver owned
  by \<open>u2\<close>; this driver goes through the interface port \<open>b\<close>, so
  \<open>noteInterfacePortDriver\<close> runs for it and the instance map gets a new entry, for \<open>I\<close>.
\<close>

theorem side_effect_clone_reprojected_is_noted:
  "noteNonCanonicalInstance cascadeEnv instU2 emptyTracker = Inr noted \<and>
   add_procedure cascadeEnv [(varW, [(viaPortDriver, (0, 7))])] noted = Inr fanned \<and>
   modportPortDrivers fanned = [(mpQ, [(cloneU2, (0, 7))])] \<and>
   isFromSideEffect cloneU2 \<and>
   instanceMap fanned =
     [(bodyM, \<lparr> nonCanonicalInstances = [instU2],
                ifacePortDrivers = [(ifaceRef, viaPortDriver)] \<rparr>)] \<and>
   propagateModportDrivers cascadeEnv fanned = Some (Inr cascaded) \<and>
   instanceMap cascaded =
     instanceMap fanned @
     [(bodyI, \<lparr> nonCanonicalInstances = [], ifacePortDrivers = [(refB, reprojected)] \<rparr>)] \<and>
   prefixExpression reprojected = connQ \<and>
   containingSymbol reprojected = asSymbol instU2"
  by (simp add: note_u2 procedure_from_noted propagate_from_fanned cloneU2_facts)
     (simp add: fanned_def cascaded_def reprojected_def)

subsection \<open>Modport propagation drains the table\<close>






text \<open>Helpers for the runs on the chain \<open>z\<close>, \<open>y\<close>, \<open>w\<close>.\<close>

lemma mp_distinct:
  "mpY \<noteq> mpZ" "mpZ \<noteq> mpY" "varW \<noteq> mpY" "varW \<noteq> mpZ" "mpY \<noteq> varW" "mpZ \<noteq> varW"
  by (simp_all add: mpY_def mpZ_def varW_def)

lemma mp_facts:
  "\<not> isClass mpY" "\<not> isClass mpZ" "kind mpY = ModportPort" "kind mpZ = ModportPort"
  "selectableWidth mpY = 8" "selectableWidth mpZ = 8" "selectableWidth varW = 8"
  "\<not> isClass varW" "kind varW = Variable" "\<not> hasInitializer varW"
  by (simp_all add: mpY_def mpZ_def varW_def)

lemma modportEnv_visit: "visitLSPs modportEnv (nameOf s) c i = [(s, nameOf s, True)]"
  by (simp add: modportEnv_def plainEnv_def nameOf_def)

lemma modportEnv_bounds: "getBounds modportEnv lsp c s = Some (0, selectableWidth s - 1)"
  by (simp add: modportEnv_def plainEnv_def)

lemma modportEnv_connection:
  "getConnectionExpr modportEnv mpZ = Some (nameOf mpY)"
  "getConnectionExpr modportEnv mpY = Some (nameOf varW)"
  by (simp_all add: modportEnv_def mp_distinct)

lemma ifacePortScan_nameOf [simp]:
  "ifacePortScan (nameOf s) = None" "ifacePortScan (assignTo s l) = None"
  by (simp_all add: nameOf_def assignTo_def)

lemma addDrivers_modport_step:
  assumes "kind s = ModportPort" "\<not> isClass s" "selectableWidth s = 8"
  shows "addDrivers modportEnv (nameOf s) k fl c None st =
     Inr (st\<lparr> symbolDrivers :=
                 (symbolDrivers st)
                   (s \<mapsto> (case symbolDrivers st s of None \<Rightarrow> [] | Some m \<Rightarrow> m)),
              modportPortDrivers :=
                 try_emplace_and_visit s []
                   (\<lambda>l. l @ [(newValueDriver k (nameOf s) c fl, (0, 7))])
                   (modportPortDrivers st) \<rparr>)"
  using assms
  by (simp add: addDrivers_def addDrivers_visit_def modportEnv_visit modportEnv_bounds
      symbolDrivers_visit_def addDriver_modport)

lemma addDrivers_varW_step:
  assumes "symbolDrivers st varW = None"
  shows "addDrivers modportEnv (nameOf varW) k fl c None st =
     Inr (st\<lparr> symbolDrivers :=
                 (symbolDrivers st)
                   (varW \<mapsto> [((0, 7), newValueDriver k (nameOf varW) c fl)]) \<rparr>)"
proof -
  have p: "preparedMap varW [] = []" by (simp add: preparedMap_def mp_facts)
  have "addDriver modportEnv varW [] (newValueDriver k (nameOf varW) c fl) (0, 7) st
    = Inr (if isFromSideEffect (newValueDriver k (nameOf varW) c fl) then None
           else ifacePortScan (prefixExpression (newValueDriver k (nameOf varW) c fl)),
           preparedMap varW [] @ [((0, 7), newValueDriver k (nameOf varW) c fl)],
           st\<lparr>diags := diags st @ []\<rparr>)"
    by (rule addDriver_stored) (simp_all add: mp_facts p)
  then show ?thesis using assms
    by (simp add: addDrivers_def addDrivers_visit_def modportEnv_visit modportEnv_bounds
        symbolDrivers_visit_def p mp_facts)
qed

lemma pass_from_pendingZ:
  "propagatePass modportEnv (modportPortDrivers pendingZ) (pendingZ\<lparr>modportPortDrivers := []\<rparr>)
     = Inr afterZ"
  by (simp add: propagatePass_def pendingZ_def afterZ_def modportEnv_connection
      propagateModportDriver_def assignTo_def addDrivers_modport_step mp_facts emptyTracker_def
      try_emplace_and_visit_def mp_distinct)

lemma pass_from_afterZ:
  "propagatePass modportEnv (modportPortDrivers afterZ) (afterZ\<lparr>modportPortDrivers := []\<rparr>)
     = Inr afterY"
  by (simp add: propagatePass_def afterZ_def afterY_def pendingZ_def modportEnv_connection
      propagateModportDriver_def nameOf_def[of mpY] addDrivers_varW_step mp_facts
      emptyTracker_def mp_distinct)

lemma pending_tables:
  "modportPortDrivers pendingZ \<noteq> []" "modportPortDrivers afterZ \<noteq> []"
  "modportPortDrivers afterY = []"
  by (simp_all add: pendingZ_def afterZ_def afterY_def)

lemma propagate_from_pendingZ: "propagateModportDrivers modportEnv pendingZ = Some (Inr afterY)"
proof -
  have 3: "propagateModportDrivers modportEnv afterY = Some (Inr afterY)"
    by (subst propagateModportDrivers.simps) (simp add: pending_tables afterY_def)
  have 2: "propagateModportDrivers modportEnv afterZ = Some (Inr afterY)"
    by (subst propagateModportDrivers.simps) (simp add: pending_tables pass_from_afterZ 3)
  show ?thesis
    by (subst propagateModportDrivers.simps) (simp add: pending_tables pass_from_pendingZ 2)
qed

















subsection \<open>Which modport ports a step can record a driver against\<close>

lemma try_emplace_keys: "fst ` set (try_emplace_and_visit k d f m) = insert k (fst ` set m)"
proof (cases "map_of m k")
  case None
  then show ?thesis by (simp add: try_emplace_and_visit_def)
next
  case (Some v)
  from map_of_SomeD[OF Some] have "k \<in> fst ` set m" by force
  moreover have "fst ` set (map (\<lambda>e. if fst e = k then (fst e, f (snd e)) else e) m) = fst ` set m"
    by (induction m) auto
  ultimately show ?thesis using Some by (auto simp: try_emplace_and_visit_def)
qed

lemma addDriver_new_keys:
  assumes "addDriver env symbol driverMap driver bounds st = Inr (r, driverMap', st')"
  shows "fst ` set (modportPortDrivers st')
           \<subseteq> fst ` set (modportPortDrivers st) \<union> {t. t = symbol \<and> kind t = ModportPort}"
proof (cases "isClass symbol")
  case True
  with assms show ?thesis by (auto simp: addDriver_class)
next
  case False
  show ?thesis
  proof (cases "kind symbol = ModportPort")
    case True
    with assms \<open>\<not> isClass symbol\<close>
    have "modportPortDrivers st' =
            try_emplace_and_visit symbol [] (\<lambda>l. l @ [(driver, bounds)]) (modportPortDrivers st)"
      by (auto simp: addDriver_modport)
    then have "fst ` set (modportPortDrivers st') = insert symbol (fst ` set (modportPortDrivers st))"
      by (simp add: try_emplace_keys)
    with True show ?thesis by auto
  next
    case False
    obtain ds where
      "overlapReports env symbol driver bounds (preparedMap symbol driverMap) = Inr ds"
      using overlapReports_total by blast
    with assms \<open>\<not> isClass symbol\<close> False show ?thesis by (auto simp: addDriver_stored)
  qed
qed

lemma visit_new_keys:
  assumes "symbolDrivers_visit symbol (\<lambda>dm s. addDriver env symbol dm driver bounds s) st = Inr (r, st')"
  shows "fst ` set (modportPortDrivers st')
           \<subseteq> fst ` set (modportPortDrivers st) \<union> {t. t = symbol \<and> kind t = ModportPort}"
    and "r = (if isClass symbol \<or> isFromSideEffect driver then None
              else ifacePortScan (prefixExpression driver))"
proof -
  let ?dm = "case symbolDrivers st symbol of None \<Rightarrow> [] | Some m \<Rightarrow> m"
  obtain r0 dm' st0 where a: "addDriver env symbol ?dm driver bounds st = Inr (r0, dm', st0)"
    using addDriver_total by blast
  with assms have e: "r = r0" "st' = st0\<lparr>symbolDrivers := (symbolDrivers st0)(symbol \<mapsto> dm')\<rparr>"
    by (simp_all add: symbolDrivers_visit_def)
  from addDriver_new_keys[OF a] e
  show "fst ` set (modportPortDrivers st')
           \<subseteq> fst ` set (modportPortDrivers st) \<union> {t. t = symbol \<and> kind t = ModportPort}"
    by simp
  from addDriver_ref[OF a] e
  show "r = (if isClass symbol \<or> isFromSideEffect driver then None
              else ifacePortScan (prefixExpression driver))" by simp
qed

lemma apply_new_keys:
  assumes "applyInstanceSideEffect env (ref, driver) inst st = Inr st'"
  shows "fst ` set (modportPortDrivers st')
           \<subseteq> fst ` set (modportPortDrivers st) \<union>
              {t. kind t = ModportPort \<and> retargetIfacePort env ref inst = Some t}"
proof (cases "retargetIfacePort env ref inst")
  case None
  with assms show ?thesis by (auto simp: applyInstanceSideEffect_def)
next
  case (Some valueSym)
  let ?driver = "driver\<lparr> containingSymbol := asSymbol inst, isFromSideEffect := True \<rparr>"
  show ?thesis
  proof (cases "getBounds env (prefixExpression ?driver) (asSymbol inst) valueSym")
    case None
    with assms Some show ?thesis by (auto simp: applyInstanceSideEffect_def Let_def)
  next
    case (Some bounds)
    with assms \<open>retargetIfacePort env ref inst = Some valueSym\<close>
    obtain r where
      v: "symbolDrivers_visit valueSym (\<lambda>dm s. addDriver env valueSym dm ?driver bounds s) st = Inr (r, st')"
      by (auto simp: applyInstanceSideEffect_def Let_def split: sum.splits if_splits)
    from visit_new_keys(1)[OF v] \<open>retargetIfacePort env ref inst = Some valueSym\<close>
    show ?thesis by auto
  qed
qed

lemma foldF_keys:
  assumes "\<And>x s s'. x \<in> set xs \<Longrightarrow> f x s = Inr s' \<Longrightarrow> K s' \<subseteq> K s \<union> T"
    and "foldF f xs s = Inr s'"
  shows "K s' \<subseteq> K s \<union> T"
  using assms
proof (induction xs arbitrary: s)
  case Nil
  then show ?case by simp
next
  case (Cons x xs)
  from Cons.prems(2) obtain s1 where s1: "f x s = Inr s1" "foldF f xs s1 = Inr s'"
    by (auto split: sum.splits)
  from Cons.prems(1)[OF _ s1(1)] have "K s1 \<subseteq> K s \<union> T" by simp
  moreover have "K s' \<subseteq> K s1 \<union> T"
    by (rule Cons.IH[OF _ s1(2)]) (rule Cons.prems(1), simp_all)
  ultimately show ?case by blast
qed

lemma note_new_keys:
  "noteInterfacePortDriver env ref driver st = Inr st' \<Longrightarrow>
   fst ` set (modportPortDrivers st')
     \<subseteq> fst ` set (modportPortDrivers st) \<union>
        {t. kind t = ModportPort \<and>
            (\<exists>r \<in> set (refChain ref). \<exists>inst. retargetIfacePort env r inst = Some t)}"
proof (induction env ref driver st arbitrary: st' rule: noteInterfacePortDriver.induct)
  case (1 env ref driver st)
  let ?im = "try_emplace_and_visit (portScope ref) emptyInstanceState
               (\<lambda>state. state\<lparr> ifacePortDrivers := ifacePortDrivers state @ [(ref, driver)] \<rparr>)
               (instanceMap st)"
  let ?nc = "case map_of ?im (portScope ref) of None \<Rightarrow> [] | Some state \<Rightarrow> nonCanonicalInstances state"
  let ?T = "\<lambda>ref. {t. kind t = ModportPort \<and>
            (\<exists>r \<in> set (refChain ref). \<exists>inst. retargetIfacePort env r inst = Some t)}"
  note eq = "1.prems"[unfolded noteInterfacePortDriver.simps[of env ref driver st]]
  from eq have ok: "\<not> (\<not> isViaIfacePort ref \<or> target ref = None \<or> \<not> hasExpr ref)"
      "\<not> kind (portScope ref) \<noteq> InstanceBody"
    by (auto split: if_splits)
  from ok have ok': "isViaIfacePort ref" "target ref \<noteq> None" "hasExpr ref"
      "kind (portScope ref) = InstanceBody"
    by auto
  from eq have eq2:
    "(case foldF (\<lambda>inst. applyInstanceSideEffect env (ref, driver) inst) ?nc (st\<lparr> instanceMap := ?im \<rparr>) of
        Inl f \<Rightarrow> Inl f
      | Inr st' \<Rightarrow>
          (case portConnection ref of
             None \<Rightarrow> Inr st'
           | Some connRef \<Rightarrow>
               if isViaIfacePort connRef
               then noteInterfacePortDriver env (join connRef ref) driver st'
               else Inr st')) = Inr st'"
    by (simp add: ok' Let_def)
  then obtain st1 where
    f: "foldF (\<lambda>inst. applyInstanceSideEffect env (ref, driver) inst) ?nc (st\<lparr> instanceMap := ?im \<rparr>) = Inr st1"
    by (auto split: sum.splits)
  have k1: "fst ` set (modportPortDrivers st1) \<subseteq> fst ` set (modportPortDrivers st) \<union> ?T ref"
  proof -
    have "fst ` set (modportPortDrivers st1)
            \<subseteq> fst ` set (modportPortDrivers (st\<lparr> instanceMap := ?im \<rparr>)) \<union> ?T ref"
    proof (rule foldF_keys[where K = "\<lambda>s. fst ` set (modportPortDrivers s)", OF _ f])
      fix x s s' assume "applyInstanceSideEffect env (ref, driver) x s = Inr s'"
      from apply_new_keys[OF this]
      show "fst ` set (modportPortDrivers s') \<subseteq> fst ` set (modportPortDrivers s) \<union> ?T ref"
        by (subst refChain.simps) auto
    qed
    then show ?thesis by simp
  qed
  show ?case
  proof (cases "portConnection ref")
    case None
    with eq2 f have "st' = st1" by simp
    with k1 show ?thesis by simp
  next
    case (Some connRef)
    show ?thesis
    proof (cases "isViaIfacePort connRef")
      case False
      with eq2 f Some have "st' = st1" by simp
      with k1 show ?thesis by simp
    next
      case True
      with eq2 f Some
      have r: "noteInterfacePortDriver env (join connRef ref) driver st1 = Inr st'"
        by simp
      from "1.IH"[OF ok refl refl f Some True r]
      have "fst ` set (modportPortDrivers st') \<subseteq> fst ` set (modportPortDrivers st1) \<union> ?T (join connRef ref)" .
      moreover have "?T (join connRef ref) \<subseteq> ?T ref"
        using Some True by (subst (2) refChain.simps) auto
      ultimately show ?thesis using k1 by blast
    qed
  qed
qed

lemma addDrivers_visit_skip:
  "\<not> isLValue \<or> getBounds env lsp c symbol = None \<Longrightarrow>
   addDrivers_visit env k fl c (symbol, lsp, isLValue) acc = Inr acc"
  by (auto simp: addDrivers_visit_def Let_def)

lemma addDrivers_visit_add:
  "isLValue \<Longrightarrow> getBounds env lsp c symbol = Some bounds \<Longrightarrow>
   addDrivers_visit env k fl c (symbol, lsp, isLValue) (refs, st) =
     (case symbolDrivers_visit symbol
             (\<lambda>dm s. addDriver env symbol dm (newValueDriver k lsp c fl) bounds s) st of
        Inl f \<Rightarrow> Inl f
      | Inr (ref, st') \<Rightarrow>
          Inr (case ref of None \<Rightarrow> refs | Some r \<Rightarrow> refs @ [(r, newValueDriver k lsp c fl)],
               st'))"
  by (auto simp: addDrivers_visit_def Let_def split: sum.splits option.splits)

lemma addDrivers_visit_keys:
  assumes "addDrivers_visit env k fl c v (refs, st) = Inr (refs', st')"
  shows "fst ` set (modportPortDrivers st')
           \<subseteq> fst ` set (modportPortDrivers st) \<union>
              {t. kind t = ModportPort \<and> snd (snd v) \<and> t = fst v} \<and>
         (\<forall>rd \<in> set refs'. rd \<in> set refs \<or>
           (snd (snd v) \<and> ifacePortScan (fst (snd v)) = Some (fst rd)))"
proof -
  obtain symbol lsp isLValue where v: "v = (symbol, lsp, isLValue)" by (cases v) auto
  have skip: ?thesis
    if "addDrivers_visit env k fl c (symbol, lsp, isLValue) (refs, st) = Inr (refs, st)"
    using that assms v by auto
  show ?thesis
  proof (cases isLValue)
    case False
    then show ?thesis by (intro skip addDrivers_visit_skip) simp
  next
    case lv: True
    show ?thesis
    proof (cases "getBounds env lsp c symbol")
      case None
      then show ?thesis by (intro skip addDrivers_visit_skip) simp
    next
      case b: (Some bounds)
      from assms[unfolded v addDrivers_visit_add[OF lv b]] obtain r where
        vis: "symbolDrivers_visit symbol
                (\<lambda>dm s. addDriver env symbol dm (newValueDriver k lsp c fl) bounds s) st
                = Inr (r, st')"
        and r: "refs' = (case r of None \<Rightarrow> refs
                         | Some x \<Rightarrow> refs @ [(x, newValueDriver k lsp c fl)])"
        by (auto split: sum.splits)
      from visit_new_keys(1)[OF vis] v lv
      have "fst ` set (modportPortDrivers st')
             \<subseteq> fst ` set (modportPortDrivers st) \<union>
                {t. kind t = ModportPort \<and> snd (snd v) \<and> t = fst v}" by auto
      moreover have "\<forall>rd \<in> set refs'. rd \<in> set refs \<or>
             (snd (snd v) \<and> ifacePortScan (fst (snd v)) = Some (fst rd))"
      proof (cases r)
        case None
        with r show ?thesis by simp
      next
        case (Some x)
        with visit_new_keys(2)[OF vis] have "ifacePortScan lsp = Some x"
          by (simp split: if_splits)
        with r Some v lv show ?thesis by auto
      qed
      ultimately show ?thesis by simp
    qed
  qed
qed

lemma addDrivers_phase1_keys:
  "foldF (addDrivers_visit env k fl c) vs (refs, st) = Inr (refs', st') \<Longrightarrow>
   fst ` set (modportPortDrivers st')
     \<subseteq> fst ` set (modportPortDrivers st) \<union>
        {t. kind t = ModportPort \<and> (\<exists>v \<in> set vs. snd (snd v) \<and> t = fst v)} \<and>
   (\<forall>rd \<in> set refs'. rd \<in> set refs \<or>
      (\<exists>v \<in> set vs. snd (snd v) \<and> ifacePortScan (fst (snd v)) = Some (fst rd)))"
proof (induction vs arbitrary: refs st)
  case Nil
  then show ?case by simp
next
  case (Cons v vs)
  from Cons.prems obtain refs1 st1 where
    s: "addDrivers_visit env k fl c v (refs, st) = Inr (refs1, st1)"
       "foldF (addDrivers_visit env k fl c) vs (refs1, st1) = Inr (refs', st')"
    by (auto split: sum.splits)
  note a = addDrivers_visit_keys[OF s(1)] and b = Cons.IH[OF s(2)]
  have "fst ` set (modportPortDrivers st')
     \<subseteq> fst ` set (modportPortDrivers st) \<union>
        {t. kind t = ModportPort \<and> (\<exists>v \<in> set (v # vs). snd (snd v) \<and> t = fst v)}"
    using a b by (simp add: subset_iff) blast
  moreover have "\<forall>rd \<in> set refs'. rd \<in> set refs \<or>
      (\<exists>v \<in> set (v # vs). snd (snd v) \<and> ifacePortScan (fst (snd v)) = Some (fst rd))"
    using a b by (simp add: Ball_def) blast
  ultimately show ?case by simp
qed

lemma addDrivers_keys:
  assumes "addDrivers env expr k fl c i st = Inr st'"
  shows "fst ` set (modportPortDrivers st')
           \<subseteq> fst ` set (modportPortDrivers st) \<union>
              {t. kind t = ModportPort \<and> t \<in> projectionTargets env expr c i}"
proof -
  let ?vs = "visitLSPs env expr c i"
  from assms obtain refs st1 where
    p1: "foldF (addDrivers_visit env k fl c) ?vs ([], st) = Inr (refs, st1)"
    and p2: "foldF (\<lambda>rd. noteInterfacePortDriver env (fst rd) (snd rd)) refs st1 = Inr st'"
    by (auto simp: addDrivers_def split: sum.splits)
  let ?T = "{t. kind t = ModportPort \<and> t \<in> projectionTargets env expr c i}"
  from addDrivers_phase1_keys[OF p1]
  have k1: "fst ` set (modportPortDrivers st1) \<subseteq> fst ` set (modportPortDrivers st) \<union> ?T"
    and rs: "\<forall>rd \<in> set refs. \<exists>v \<in> set ?vs. snd (snd v) \<and> ifacePortScan (fst (snd v)) = Some (fst rd)"
    by (auto simp: projectionTargets_def)
  have "fst ` set (modportPortDrivers st') \<subseteq> fst ` set (modportPortDrivers st1) \<union> ?T"
  proof (rule foldF_keys[where K = "\<lambda>s. fst ` set (modportPortDrivers s)", OF _ p2])
    fix rd s s'
    assume rd: "rd \<in> set refs" and n: "noteInterfacePortDriver env (fst rd) (snd rd) s = Inr s'"
    from rs rd obtain v where v: "v \<in> set ?vs" "snd (snd v)" "ifacePortScan (fst (snd v)) = Some (fst rd)"
      by blast
    then have "{t. \<exists>r \<in> set (refChain (fst rd)). \<exists>inst. retargetIfacePort env r inst = Some t}
                 \<subseteq> projectionTargets env expr c i"
      by (auto simp: projectionTargets_def sideEffectTargets_def intro!: bexI[of _ v])
    with note_new_keys[OF n]
    show "fst ` set (modportPortDrivers s') \<subseteq> fst ` set (modportPortDrivers s) \<union> ?T"
      by blast
  qed
  with k1 show ?thesis by blast
qed


lemma propagatePass_keys:
  assumes "propagatePass env localCopy st = Inr st'"
  shows "fst ` set (modportPortDrivers st')
           \<subseteq> fst ` set (modportPortDrivers st) \<union>
              {t. kind t = ModportPort \<and>
                  (\<exists>s \<in> fst ` set localCopy. \<exists>expr c i.
                      getConnectionExpr env s = Some expr \<and> t \<in> projectionTargets env expr c i)}"
  (is "_ \<subseteq> _ \<union> ?T")
proof (rule foldF_keys[where K = "\<lambda>s. fst ` set (modportPortDrivers s)",
         OF _ assms[unfolded propagatePass_def]])
  fix item s s'
  assume item: "item \<in> set localCopy"
    and step: "(case getConnectionExpr env (fst item) of
                  Some expr \<Rightarrow>
                    foldF (\<lambda>od s'. propagateModportDriver env expr (fst od) s') (snd item) s
                | None \<Rightarrow> Inr s) = Inr s'"
  show "fst ` set (modportPortDrivers s') \<subseteq> fst ` set (modportPortDrivers s) \<union> ?T"
  proof (cases "getConnectionExpr env (fst item)")
    case None
    with step show ?thesis by auto
  next
    case (Some expr)
    with step have f: "foldF (\<lambda>od s'. propagateModportDriver env expr (fst od) s') (snd item) s = Inr s'"
      by simp
    show ?thesis
    proof (rule foldF_keys[where K = "\<lambda>s. fst ` set (modportPortDrivers s)", OF _ f])
      fix od t t'
      assume "propagateModportDriver env expr (fst od) t = Inr t'"
      from addDrivers_keys[OF this[unfolded propagateModportDriver_def Let_def]]
      obtain c i where
        k: "fst ` set (modportPortDrivers t') \<subseteq> fst ` set (modportPortDrivers t) \<union>
              {t. kind t = ModportPort \<and> t \<in> projectionTargets env expr c i}"
        by blast
      have "{t. kind t = ModportPort \<and> t \<in> projectionTargets env expr c i} \<subseteq> ?T"
        using item Some by blast
      with k show "fst ` set (modportPortDrivers t') \<subseteq> fst ` set (modportPortDrivers t) \<union> ?T"
        by blast
    qed
  qed
qed

subsection \<open>Termination of the modport propagation\<close>

text \<open>
  Claim C5. \<open>propagateModportDrivers\<close> terminates: the loop reaches a pass that leaves the
  table empty, or an assertion stops the program. The loop has no bound of its own, and the
  statement needs the hypothesis that the claim names: the modport connection graph has no
  cycle, given here by a rank that decreases along its edges. Every port recorded by a pass
  then ranks below a port of the table the pass started from.
\<close>

theorem propagateModportDrivers_terminates:
  assumes "modportRanked env rank"
  shows "\<exists>r. propagateModportDrivers env st = Some r"
proof -
  have "\<forall>st :: TrackerState. (\<forall>s \<in> fst ` set (modportPortDrivers st). rank s < n) \<longrightarrow>
             (\<exists>r. propagateModportDrivers env st = Some r)" for n
  proof (induction n)
    case 0
    show ?case
    proof (intro allI impI)
      fix st :: TrackerState assume "\<forall>s \<in> fst ` set (modportPortDrivers st). rank s < 0"
      then have "modportPortDrivers st = []" by (cases "modportPortDrivers st") auto
      then show "\<exists>r. propagateModportDrivers env st = Some r"
        by (subst propagateModportDrivers.simps) simp
    qed
  next
    case (Suc n)
    show ?case
    proof (intro allI impI)
      fix st :: TrackerState assume b: "\<forall>s \<in> fst ` set (modportPortDrivers st). rank s < Suc n"
      show "\<exists>r. propagateModportDrivers env st = Some r"
      proof (cases "modportPortDrivers st = []")
        case True
        then show ?thesis by (subst propagateModportDrivers.simps) simp
      next
        case False
        show ?thesis
        proof (cases "propagatePass env (modportPortDrivers st) (st\<lparr>modportPortDrivers := []\<rparr>)")
          case (Inl f)
          with False show ?thesis by (subst propagateModportDrivers.simps) simp
        next
          case (Inr st1)
          have "\<forall>s \<in> fst ` set (modportPortDrivers st1). rank s < n"
          proof
            fix t assume "t \<in> fst ` set (modportPortDrivers st1)"
            with propagatePass_keys[OF Inr]
            have "kind t = ModportPort \<and>
                  (\<exists>s \<in> fst ` set (modportPortDrivers st). \<exists>expr c i.
                      getConnectionExpr env s = Some expr \<and> t \<in> projectionTargets env expr c i)"
              by auto
            then obtain s expr c i where
              h: "kind t = ModportPort" "s \<in> fst ` set (modportPortDrivers st)"
              "getConnectionExpr env s = Some expr" "t \<in> projectionTargets env expr c i"
              by blast
            from assms h(3,4,1) have "rank t < rank s"
              unfolding modportRanked_def by blast
            moreover from b h(2) have "rank s < Suc n" by blast
            ultimately show "rank t < n" by simp
          qed
          with Suc.IH obtain r where "propagateModportDrivers env st1 = Some r" by blast
          with False Inr show ?thesis by (subst propagateModportDrivers.simps) simp
        qed
      qed
    qed
  qed
  then have "(\<forall>s \<in> fst ` set (modportPortDrivers st).
                rank s < Suc (Max (rank ` fst ` set (modportPortDrivers st)))) \<longrightarrow>
             (\<exists>r. propagateModportDrivers env st = Some r)"
    by blast
  moreover have "\<forall>s \<in> fst ` set (modportPortDrivers st).
                rank s < Suc (Max (rank ` fst ` set (modportPortDrivers st)))"
    by (simp add: less_Suc_eq_le)
  ultimately show ?thesis by blast
qed

lemma projectionTargets_nameOf: "projectionTargets modportEnv (nameOf s) c i = {s}"
  by (simp add: projectionTargets_def modportEnv_visit sideEffectTargets_def)

lemma modportEnv_ranked: "modportRanked modportEnv modportRank"
  unfolding modportRanked_def
proof (intro allI impI)
  fix s expr c i t
  assume conn: "getConnectionExpr modportEnv s = Some expr"
    and t: "t \<in> projectionTargets modportEnv expr c i" and k: "kind t = ModportPort"
  from conn have "(s = mpZ \<and> expr = nameOf mpY) \<or> (s = mpY \<and> expr = nameOf varW)"
    by (auto simp: modportEnv_def split: if_splits)
  then show "modportRank t < modportRank s"
  proof
    assume "s = mpZ \<and> expr = nameOf mpY"
    with t show ?thesis by (simp add: projectionTargets_nameOf modportRank_def mp_distinct)
  next
    assume "s = mpY \<and> expr = nameOf varW"
    with t k show ?thesis by (simp add: projectionTargets_nameOf mp_facts)
  qed
qed

text \<open>The chain \<open>z\<close>, \<open>y\<close>, \<open>w\<close> is ranked 2, 1, 0, and the propagation from \<open>pendingZ\<close> returns.\<close>

theorem propagateModportDrivers_terminates_witness:
  "modportRanked modportEnv modportRank \<and>
   (\<exists>r. propagateModportDrivers modportEnv pendingZ = Some r)"
  using propagateModportDrivers_terminates[OF modportEnv_ranked, of pendingZ] modportEnv_ranked
  by simp

subsection \<open>What every reachable state satisfies\<close>

lemma try_emplace_set:
  assumes "e \<in> set (try_emplace_and_visit k d f m)"
  shows "fst e = k \<or> e \<in> set m"
proof (cases "map_of m k")
  case None
  with assms show ?thesis by (auto simp: try_emplace_and_visit_def)
next
  case (Some v)
  with assms have "e \<in> (\<lambda>x. if fst x = k then (fst x, f (snd x)) else x) ` set m"
    by (simp add: try_emplace_and_visit_def)
  then obtain x where "x \<in> set m" "e = (if fst x = k then (fst x, f (snd x)) else x)"
    by blast
  then show ?thesis by (cases "fst x = k") simp_all
qed

lemma addDriver_modport_inv:
  assumes "addDriver env s dm d b st = Inr (r, dm', st')" "\<not> isClass s" "kind s = ModportPort"
  shows "dm' = dm \<and> (modportKeysSound st \<longrightarrow> modportKeysSound st') \<and>
         symbolDrivers st' = symbolDrivers st \<and> instanceMap st' = instanceMap st"
proof -
  from assms
  have e: "dm' = dm" "st' = st\<lparr> modportPortDrivers :=
                try_emplace_and_visit s [] (\<lambda>l. l @ [(d, b)]) (modportPortDrivers st) \<rparr>"
    by (simp_all add: addDriver_modport)
  have m: "modportPortDrivers st' =
             try_emplace_and_visit s [] (\<lambda>l. l @ [(d, b)]) (modportPortDrivers st)"
    and o: "symbolDrivers st' = symbolDrivers st" "instanceMap st' = instanceMap st"
    by (simp_all add: e(2))
  have "modportKeysSound st'" if a: "modportKeysSound st"
    unfolding modportKeysSound_def
  proof
    fix x assume x: "x \<in> set (modportPortDrivers st')"
    from x[unfolded m] have "fst x = s \<or> x \<in> set (modportPortDrivers st)"
      by (rule try_emplace_set)
    then show "\<not> isClass (fst x) \<and> kind (fst x) = ModportPort"
    proof
      assume "fst x = s"
      with assms(2,3) show ?thesis by simp
    next
      assume "x \<in> set (modportPortDrivers st)"
      with a show ?thesis unfolding modportKeysSound_def by blast
    qed
  qed
  with e(1) o show ?thesis by blast
qed

lemma addDriver_inv:
  assumes "addDriver env s dm d b st = Inr (r, dm', st')"
  shows "(holdsNoDrivers s \<longrightarrow> dm' = dm) \<and> (modportKeysSound st \<longrightarrow> modportKeysSound st') \<and>
         symbolDrivers st' = symbolDrivers st \<and> instanceMap st' = instanceMap st"
proof (cases "isClass s")
  case True
  with assms have "dm' = dm \<and> st' = st" by (simp add: addDriver_class)
  then show ?thesis by simp
next
  case False
  show ?thesis
  proof (cases "kind s = ModportPort")
    case True
    from addDriver_modport_inv[OF assms False True] show ?thesis by simp
  next
    case False
    obtain ds where "overlapReports env s d b (preparedMap s dm) = Inr ds"
      using overlapReports_total by blast
    with assms \<open>\<not> isClass s\<close> False
    have "st' = st\<lparr> diags := diags st @ ds \<rparr>" by (simp add: addDriver_stored)
    with \<open>\<not> isClass s\<close> False show ?thesis
      by (simp add: holdsNoDrivers_def modportKeysSound_def)
  qed
qed

lemma trackerInvD1: "trackerInv st \<Longrightarrow> holdsNoDrivers s \<Longrightarrow> getDrivers st s = []"
  unfolding trackerInv_def by blast

lemma trackerInvD2: "trackerInv st \<Longrightarrow> modportKeysSound st"
  unfolding trackerInv_def by blast

lemma symbolDrivers_visit_inv:
  assumes inv: "trackerInv st"
    and vis: "symbolDrivers_visit s f st = Inr (x, st')"
    and f: "\<And>dm st r dm' st1. f dm st = Inr (r, dm', st1) \<Longrightarrow>
              (holdsNoDrivers s \<longrightarrow> dm' = dm) \<and>
              (modportKeysSound st \<longrightarrow> modportKeysSound st1) \<and>
              symbolDrivers st1 = symbolDrivers st"
  shows "trackerInv st'"
proof -
  let ?dm = "case symbolDrivers st s of None \<Rightarrow> [] | Some m \<Rightarrow> m"
  from vis obtain dm' st1 where
    a: "f ?dm st = Inr (x, dm', st1)"
    and st': "st' = st1\<lparr>symbolDrivers := (symbolDrivers st1)(s \<mapsto> dm')\<rparr>"
    by (auto simp: symbolDrivers_visit_def Let_def split: sum.splits)
  note p = f[OF a]
  have g: "getDrivers st s = map (\<lambda>e. (snd e, fst e)) ?dm"
    by (simp add: getDrivers_def split: option.splits)
  have "getDrivers st' t = []" if t: "holdsNoDrivers t" for t
  proof (cases "t = s")
    case True
    with t p have "dm' = ?dm" by simp
    moreover from trackerInvD1[OF inv t] True have "getDrivers st s = []" by simp
    ultimately show ?thesis using st' True g by (simp add: getDrivers_def)
  next
    case False
    with p st' have "getDrivers st' t = getDrivers st t" by (simp add: getDrivers_def)
    with trackerInvD1[OF inv t] show ?thesis by simp
  qed
  moreover from trackerInvD2[OF inv] p st' have "modportKeysSound st'"
    by (simp add: modportKeysSound_def)
  ultimately show ?thesis by (simp add: trackerInv_def)
qed

lemma visit_addDriver_inv:
  assumes "trackerInv st"
    and "symbolDrivers_visit s (\<lambda>dm st. addDriver env s dm d b st) st = Inr (r, st')"
  shows "trackerInv st'"
proof (rule symbolDrivers_visit_inv[OF assms])
  fix dm st r dm' st1
  assume "addDriver env s dm d b st = Inr (r, dm', st1)"
  from addDriver_inv[OF this]
  show "(holdsNoDrivers s \<longrightarrow> dm' = dm) \<and> (modportKeysSound st \<longrightarrow> modportKeysSound st1) \<and>
        symbolDrivers st1 = symbolDrivers st" by simp
qed

lemma trackerInv_instanceMap [simp]: "trackerInv (st\<lparr>instanceMap := im\<rparr>) = trackerInv st"
  by (simp add: trackerInv_def getDrivers_def modportKeysSound_def)

lemma trackerInv_drain: "trackerInv st \<Longrightarrow> trackerInv (st\<lparr>modportPortDrivers := []\<rparr>)"
  by (simp add: trackerInv_def getDrivers_def modportKeysSound_def)

lemma trackerInv_empty: "trackerInv emptyTracker"
  by (simp add: trackerInv_def getDrivers_def emptyTracker_def modportKeysSound_def)

lemma foldF_inv:
  assumes "\<And>x s s'. P s \<Longrightarrow> f x s = Inr s' \<Longrightarrow> P s'"
    and "P s" and "foldF f xs s = Inr s'"
  shows "P s'"
  using assms(2,3)
proof (induction xs arbitrary: s)
  case Nil
  then show ?case by simp
next
  case (Cons x xs)
  from Cons.prems(2) obtain s1 where s1: "f x s = Inr s1" "foldF f xs s1 = Inr s'"
    by (auto split: sum.splits)
  from assms(1)[OF Cons.prems(1) s1(1)] have "P s1" .
  from Cons.IH[OF this s1(2)] show ?case .
qed

lemma applyInstanceSideEffect_inv:
  assumes "trackerInv st" and "applyInstanceSideEffect env ipd inst st = Inr st'"
  shows "trackerInv st'"
proof (cases "retargetIfacePort env (fst ipd) inst")
  case None
  with assms show ?thesis by (simp add: applyInstanceSideEffect_def)
next
  case (Some valueSym)
  let ?driver = "(snd ipd)\<lparr> containingSymbol := asSymbol inst, isFromSideEffect := True \<rparr>"
  show ?thesis
  proof (cases "getBounds env (prefixExpression ?driver) (asSymbol inst) valueSym")
    case None
    with assms Some show ?thesis by (simp add: applyInstanceSideEffect_def Let_def)
  next
    case (Some bounds)
    with assms(2) \<open>retargetIfacePort env (fst ipd) inst = Some valueSym\<close>
    obtain r where
      "symbolDrivers_visit valueSym (\<lambda>dm s. addDriver env valueSym dm ?driver bounds s) st = Inr (r, st')"
      by (auto simp: applyInstanceSideEffect_def Let_def split: sum.splits if_splits)
    from visit_addDriver_inv[OF assms(1) this] show ?thesis .
  qed
qed

lemma noteInterfacePortDriver_inv:
  "trackerInv st \<Longrightarrow> noteInterfacePortDriver env ref driver st = Inr st' \<Longrightarrow> trackerInv st'"
proof (induction env ref driver st arbitrary: st' rule: noteInterfacePortDriver.induct)
  case (1 env ref driver st)
  let ?im = "try_emplace_and_visit (portScope ref) emptyInstanceState
               (\<lambda>state. state\<lparr> ifacePortDrivers := ifacePortDrivers state @ [(ref, driver)] \<rparr>)
               (instanceMap st)"
  let ?nc = "case map_of ?im (portScope ref) of None \<Rightarrow> [] | Some state \<Rightarrow> nonCanonicalInstances state"
  note eq = "1.prems"(2)[unfolded noteInterfacePortDriver.simps[of env ref driver st]]
  from eq have ok: "\<not> (\<not> isViaIfacePort ref \<or> target ref = None \<or> \<not> hasExpr ref)"
      "\<not> kind (portScope ref) \<noteq> InstanceBody"
    by (auto split: if_splits)
  from ok have ok': "isViaIfacePort ref" "target ref \<noteq> None" "hasExpr ref"
      "kind (portScope ref) = InstanceBody"
    by auto
  from eq have eq2:
    "(case foldF (\<lambda>inst. applyInstanceSideEffect env (ref, driver) inst) ?nc (st\<lparr> instanceMap := ?im \<rparr>) of
        Inl f \<Rightarrow> Inl f
      | Inr st' \<Rightarrow>
          (case portConnection ref of
             None \<Rightarrow> Inr st'
           | Some connRef \<Rightarrow>
               if isViaIfacePort connRef
               then noteInterfacePortDriver env (join connRef ref) driver st'
               else Inr st')) = Inr st'"
    by (simp add: ok' Let_def)
  then obtain st1 where
    f: "foldF (\<lambda>inst. applyInstanceSideEffect env (ref, driver) inst) ?nc (st\<lparr> instanceMap := ?im \<rparr>) = Inr st1"
    by (auto split: sum.splits)
  have i1: "trackerInv st1"
    by (rule foldF_inv[where P = trackerInv, OF _ _ f])
       (erule applyInstanceSideEffect_inv, assumption, simp add: "1.prems"(1))
  show ?case
  proof (cases "portConnection ref")
    case None
    with eq2 f have "st' = st1" by simp
    with i1 show ?thesis by simp
  next
    case (Some connRef)
    show ?thesis
    proof (cases "isViaIfacePort connRef")
      case False
      with eq2 f Some have "st' = st1" by simp
      with i1 show ?thesis by simp
    next
      case True
      with eq2 f Some
      have r: "noteInterfacePortDriver env (join connRef ref) driver st1 = Inr st'"
        by simp
      from "1.IH"[OF ok refl refl f Some True i1 r] show ?thesis .
    qed
  qed
qed


lemma noteNonCanonicalInstance_inv:
  assumes "trackerInv st" and "noteNonCanonicalInstance env instance st = Inr st'"
  shows "trackerInv st'"
proof (cases "canonicalBody instance")
  case None
  with assms(2) show ?thesis by (simp add: noteNonCanonicalInstance_def)
next
  case (Some canonical)
  let ?im = "try_emplace_and_visit canonical emptyInstanceState
               (\<lambda>state. state\<lparr> nonCanonicalInstances := nonCanonicalInstances state @ [instance] \<rparr>)
               (instanceMap st)"
  from assms(2) Some obtain copied where
    f: "foldF (\<lambda>ifacePortDriver. applyInstanceSideEffect env ifacePortDriver instance)
          copied (st\<lparr> instanceMap := ?im \<rparr>) = Inr st'"
    by (simp add: noteNonCanonicalInstance_def Let_def)
  show ?thesis
    by (rule foldF_inv[where P = trackerInv, OF _ _ f])
       (erule applyInstanceSideEffect_inv, assumption, simp add: assms(1))
qed

lemma addDrivers_visit_inv:
  assumes "trackerInv (snd acc)" and "addDrivers_visit env k fl c v acc = Inr acc'"
  shows "trackerInv (snd acc')"
proof -
  obtain symbol lsp isLValue where v: "v = (symbol, lsp, isLValue)" by (cases v) auto
  obtain refs st where acc: "acc = (refs, st)" by (cases acc) auto
  obtain refs' st' where acc': "acc' = (refs', st')" by (cases acc') auto
  have skip: ?thesis
    if "addDrivers_visit env k fl c (symbol, lsp, isLValue) acc = Inr acc"
    using that assms v by auto
  show ?thesis
  proof (cases isLValue)
    case False
    then show ?thesis by (intro skip addDrivers_visit_skip) simp
  next
    case lv: True
    show ?thesis
    proof (cases "getBounds env lsp c symbol")
      case None
      then show ?thesis by (intro skip addDrivers_visit_skip) simp
    next
      case b: (Some bounds)
      from assms(2)[unfolded v acc acc' addDrivers_visit_add[OF lv b]] obtain r where
        vis: "symbolDrivers_visit symbol
                (\<lambda>dm s. addDriver env symbol dm (newValueDriver k lsp c fl) bounds s) st
                = Inr (r, st')"
        by (auto split: sum.splits)
      from visit_addDriver_inv[OF _ vis] assms(1) acc acc' show ?thesis by simp
    qed
  qed
qed

lemma foldF_note_inv:
  assumes "trackerInv st"
    and "foldF (\<lambda>rd. noteInterfacePortDriver env (fst rd) (snd rd)) refs st = Inr st'"
  shows "trackerInv st'"
  by (rule foldF_inv[where P = trackerInv, OF _ assms])
     (erule noteInterfacePortDriver_inv, assumption)

lemma addDrivers_inv:
  assumes "trackerInv st" and "addDrivers env expr k fl c i st = Inr st'"
  shows "trackerInv st'"
proof -
  from assms(2) obtain refs st1 where
    p1: "foldF (addDrivers_visit env k fl c) (visitLSPs env expr c i) ([], st) = Inr (refs, st1)"
    and p2: "foldF (\<lambda>rd. noteInterfacePortDriver env (fst rd) (snd rd)) refs st1 = Inr st'"
    by (auto simp: addDrivers_def split: sum.splits)
  have "trackerInv (snd (refs, st1))"
    by (rule foldF_inv[where P = "\<lambda>acc. trackerInv (snd acc)", OF _ _ p1])
       (erule addDrivers_visit_inv, assumption, simp add: assms(1))
  then have "trackerInv st1" by simp
  from foldF_note_inv[OF this p2] show ?thesis .
qed

lemma addProcedureDrivers_inv:
  "addProcedureDrivers env s ds dm st = Inr (refs, dm', st') \<Longrightarrow>
   (holdsNoDrivers s \<longrightarrow> dm' = dm) \<and> (modportKeysSound st \<longrightarrow> modportKeysSound st') \<and>
   symbolDrivers st' = symbolDrivers st"
proof (induction ds arbitrary: dm st refs)
  case Nil
  then show ?case by simp
next
  case (Cons db ds)
  from Cons.prems obtain r dm1 st1 refs1 where
    a: "addDriver env s dm (fst db) (snd db) st = Inr (r, dm1, st1)"
    and b: "addProcedureDrivers env s ds dm1 st1 = Inr (refs1, dm', st')"
    by (auto split: sum.splits)
  from addDriver_inv[OF a] Cons.IH[OF b] show ?case by simp
qed

lemma addListedDrivers_inv:
  "addListedDrivers env s ds dm st = Inr (u, dm', st') \<Longrightarrow>
   (holdsNoDrivers s \<longrightarrow> dm' = dm) \<and> (modportKeysSound st \<longrightarrow> modportKeysSound st') \<and>
   symbolDrivers st' = symbolDrivers st"
proof (induction ds arbitrary: dm st)
  case Nil
  then show ?case by simp
next
  case (Cons db ds)
  from Cons.prems obtain r dm1 st1 where
    a: "addDriver env s dm (fst db) (snd db) st = Inr (r, dm1, st1)"
    and b: "addListedDrivers env s ds dm1 st1 = Inr (u, dm', st')"
    by (auto split: sum.splits if_splits)
  from addDriver_inv[OF a] Cons.IH[OF b] show ?case by simp
qed

lemma add_procedure_inv:
  assumes "trackerInv st" and "add_procedure env pd st = Inr st'"
  shows "trackerInv st'"
proof -
  from assms(2) obtain refs st1 where
    p1: "foldF (add_procedure_visit env) pd ([], st) = Inr (refs, st1)"
    and p2: "foldF (\<lambda>rd. noteInterfacePortDriver env (fst rd) (snd rd)) refs st1 = Inr st'"
    by (auto simp: add_procedure_def split: sum.splits)
  have step: "trackerInv (snd acc')"
    if "trackerInv (snd acc)" "add_procedure_visit env entry acc = Inr acc'" for entry acc acc'
  proof -
    from that(2) obtain refs2 st2 where
      vis: "symbolDrivers_visit (fst entry)
              (\<lambda>driverMap s. addProcedureDrivers env (fst entry) (snd entry) driverMap s)
              (snd acc) = Inr (refs2, st2)"
      and acc': "acc' = (fst acc @ refs2, st2)"
      by (auto simp: add_procedure_visit_def split: sum.splits)
    have "trackerInv st2"
      by (rule symbolDrivers_visit_inv[OF that(1) vis]) (erule addProcedureDrivers_inv)
    with acc' show ?thesis by simp
  qed
  have "trackerInv (snd (refs, st1))"
    by (rule foldF_inv[where P = "\<lambda>acc. trackerInv (snd acc)", OF _ _ p1])
       (erule step, assumption, simp add: assms(1))
  then have "trackerInv st1" by simp
  from foldF_note_inv[OF this p2] show ?thesis .
qed

lemma add_symbolDriverList_inv:
  assumes "trackerInv st" and "add_symbolDriverList env sdl st = Inr st'"
  shows "trackerInv st'"
proof (rule foldF_inv[where P = trackerInv, OF _ assms(1) assms(2)[unfolded add_symbolDriverList_def]])
  fix entry s s'
  assume i: "trackerInv s"
    and e: "(case symbolDrivers_visit (fst entry)
                    (\<lambda>driverMap s'. addListedDrivers env (fst entry) (snd entry) driverMap s') s of
               Inl f \<Rightarrow> Inl f | Inr (u, s') \<Rightarrow> Inr s') = Inr s'"
  then obtain u where
    vis: "symbolDrivers_visit (fst entry)
            (\<lambda>driverMap s'. addListedDrivers env (fst entry) (snd entry) driverMap s') s = Inr (u, s')"
    by (auto split: sum.splits)
  show "trackerInv s'"
    by (rule symbolDrivers_visit_inv[OF i vis]) (erule addListedDrivers_inv)
qed

lemma add_portConnection_inv:
  assumes "trackerInv st" and "add_portConnection env connection containing st = Inr st'"
  shows "trackerInv st'"
proof (cases "connExpression connection")
  case None
  with assms show ?thesis by (simp add: add_portConnection_def)
next
  case (Some expr)
  show ?thesis
  proof (cases "connExpressionBad connection \<or> connPortKind connection = InterfacePort \<or>
                connPortDirection connection = In")
    case True
    with assms Some show ?thesis by (auto simp: add_portConnection_def split: if_splits)
  next
    case False
    with assms(2) Some obtain e fl where "addDrivers env e Continuous fl containing None st = Inr st'"
      by (auto simp: add_portConnection_def Let_def)
    from addDrivers_inv[OF assms(1) this] show ?thesis .
  qed
qed

lemma add_port_inv:
  assumes "trackerInv st" and "add_port env port st = Inr st'"
  shows "trackerInv st'"
proof (cases "direction port \<noteq> In \<and> direction port \<noteq> InOut")
  case True
  with assms show ?thesis by (simp add: add_port_def Let_def)
next
  case False
  show ?thesis
  proof (cases "internalExpr port = None \<and> internalSymbol port = None")
    case True
    with assms False show ?thesis by (auto simp: add_port_def Let_def)
  next
    case nn: False
    with assms(2) False obtain e fl where
      "addDrivers env e Continuous fl (portParentScope port) None st = Inr st'"
      by (auto simp: add_port_def Let_def split: option.splits)
    from addDrivers_inv[OF assms(1) this] show ?thesis .
  qed
qed

lemma add_clockVar_inv:
  assumes "trackerInv st" and "add_clockVar env cv st = Inr st'"
  shows "trackerInv st'"
proof (cases "clockVarDirection cv = In \<or> clockVarInitializer cv = None")
  case True
  with assms show ?thesis by (auto simp: add_clockVar_def split: if_splits)
next
  case False
  with assms(2) obtain e where
    "addDrivers env e Continuous {ClockVar} (clockVarParentScope cv) None st = Inr st'"
    by (auto simp: add_clockVar_def)
  from addDrivers_inv[OF assms(1) this] show ?thesis .
qed

lemma add_expression_inv:
  "trackerInv st \<Longrightarrow> add_expression env expr containing st = Inr st' \<Longrightarrow> trackerInv st'"
  unfolding add_expression_def by (rule addDrivers_inv)

lemma propagatePass_inv:
  assumes "trackerInv st" and "propagatePass env localCopy st = Inr st'"
  shows "trackerInv st'"
proof (rule foldF_inv[where P = trackerInv, OF _ assms(1) assms(2)[unfolded propagatePass_def]])
  fix item s s'
  assume i: "trackerInv s"
    and step: "(case getConnectionExpr env (fst item) of
                  Some expr \<Rightarrow>
                    foldF (\<lambda>od s'. propagateModportDriver env expr (fst od) s') (snd item) s
                | None \<Rightarrow> Inr s) = Inr s'"
  show "trackerInv s'"
  proof (cases "getConnectionExpr env (fst item)")
    case None
    with step i show ?thesis by simp
  next
    case (Some expr)
    with step have f: "foldF (\<lambda>od s'. propagateModportDriver env expr (fst od) s') (snd item) s = Inr s'"
      by simp
    show ?thesis
    proof (rule foldF_inv[where P = trackerInv, OF _ i f])
      fix od t t'
      assume "trackerInv t" "propagateModportDriver env expr (fst od) t = Inr t'"
      from addDrivers_inv[OF this(1) this(2)[unfolded propagateModportDriver_def Let_def]]
      show "trackerInv t'" .
    qed
  qed
qed

lemma propagateModportDrivers_inv:
  assumes "propagateModportDrivers env st = Some r"
  shows "trackerInv st \<longrightarrow> (case r of Inl f \<Rightarrow> True | Inr st' \<Rightarrow> trackerInv st')"
proof (rule propagateModportDrivers.raw_induct
         [where P = "\<lambda>env st r. trackerInv st \<longrightarrow> (case r of Inl f \<Rightarrow> True | Inr st' \<Rightarrow> trackerInv st')",
          OF _ assms], goal_cases)
  case (1 propagate env st r)
  show ?case
  proof
    assume i: "trackerInv st"
    show "case r of Inl f \<Rightarrow> True | Inr st' \<Rightarrow> trackerInv st'"
    proof (cases "modportPortDrivers st = []")
      case True
      with 1(2) trackerInv_drain[OF i] show ?thesis by auto
    next
      case False
      show ?thesis
      proof (cases "propagatePass env (modportPortDrivers st) (st\<lparr>modportPortDrivers := []\<rparr>)")
        case (Inl f)
        with False 1(2) show ?thesis by auto
      next
        case (Inr st1)
        with False 1(2) have "propagate env st1 = Some r" by simp
        from 1(1)[OF this] propagatePass_inv[OF trackerInv_drain[OF i] Inr] show ?thesis by simp
      qed
    qed
  qed
qed

lemma reachable_inv: "reachable env st \<Longrightarrow> trackerInv st"
proof (induction rule: reachable.induct)
  case reach_empty
  show ?case by (rule trackerInv_empty)
next
  case (reach_procedure st pd st')
  then show ?case by (auto intro: add_procedure_inv)
next
  case (reach_portConnection st connection containing st')
  then show ?case by (auto intro: add_portConnection_inv)
next
  case (reach_port st port st')
  then show ?case by (auto intro: add_port_inv)
next
  case (reach_clockVar st clockVar st')
  then show ?case by (auto intro: add_clockVar_inv)
next
  case (reach_expression st expr containing st')
  then show ?case by (auto intro: add_expression_inv)
next
  case (reach_symbolDriverList st sdl st')
  then show ?case by (auto intro: add_symbolDriverList_inv)
next
  case (reach_nonCanonical st inst st')
  then show ?case by (auto intro: noteNonCanonicalInstance_inv)
next
  case (reach_propagate st st')
  from propagateModportDrivers_inv[OF reach_propagate(2)] reach_propagate(3)
  show ?case by simp
qed

subsection \<open>Symbols of class type\<close>

lemma plainEnv_visit: "visitLSPs plainEnv (NamedValueExpression s r) c i = [(s, NamedValueExpression s r, True)]"
  by (simp add: plainEnv_def)

lemma plainEnv_bounds: "getBounds plainEnv lsp c s = Some (0, selectableWidth s - 1)"
  by (simp add: plainEnv_def)

lemma add_expression_classVar:
  "add_expression plainEnv (nameOf classVar) topScope emptyTracker =
     Inr (emptyTracker\<lparr> symbolDrivers := [classVar \<mapsto> []] \<rparr>)"
proof -
  have c: "isClass classVar" by (simp add: classVar_def)
  have e: "symbolDrivers emptyTracker classVar = None" by (simp add: emptyTracker_def)
  show ?thesis
    by (simp add: add_expression_def addDrivers_def addDrivers_visit_def nameOf_def
        plainEnv_visit plainEnv_bounds symbolDrivers_visit_def addDriver_class[OF c] e
        emptyTracker_def)
qed

text \<open>
  Claim C9, as amended. No driver is ever stored against a symbol of class type:
  \<open>addDriver\<close> returns at once, with the interval map and the state as they were, and in
  every reachable state \<open>getDrivers\<close> returns no entry for the symbol and the modport
  table has no entry for it. (The symbol may well be a key of \<open>symbolDrivers\<close>: the visitor
  creates the entry, empty, before \<open>addDriver\<close> runs.)
\<close>

theorem class_symbol_holds_no_driver:
  assumes "isClass s"
  shows "addDriver env s driverMap driver bounds st0 = Inr (None, driverMap, st0) \<and>
         (reachable env st \<longrightarrow>
            getDrivers st s = [] \<and> s \<notin> fst ` set (modportPortDrivers st))"
proof
  from assms show "addDriver env s driverMap driver bounds st0 = Inr (None, driverMap, st0)"
    by (rule addDriver_class)
next
  show "reachable env st \<longrightarrow> getDrivers st s = [] \<and> s \<notin> fst ` set (modportPortDrivers st)"
  proof
    assume "reachable env st"
    then have i: "trackerInv st" by (rule reachable_inv)
    from assms have "holdsNoDrivers s" by (simp add: holdsNoDrivers_def)
    from trackerInvD1[OF i this] have "getDrivers st s = []" .
    moreover from trackerInvD2[OF i] assms have "s \<notin> fst ` set (modportPortDrivers st)"
      unfolding modportKeysSound_def by blast
    ultimately show "getDrivers st s = [] \<and> s \<notin> fst ` set (modportPortDrivers st)" by simp
  qed
qed

text \<open>An assignment to the class-typed variable \<open>c\<close>, from the empty tracker.\<close>

lemma classVar_state_reachable:
  "reachable plainEnv (emptyTracker\<lparr> symbolDrivers := [classVar \<mapsto> []] \<rparr>)"
  by (rule reach_expression[OF reach_empty add_expression_classVar])

theorem class_symbol_holds_no_driver_witness:
  "isClass classVar \<and>
   reachable plainEnv (emptyTracker\<lparr> symbolDrivers := [classVar \<mapsto> []] \<rparr>) \<and>
   getDrivers (emptyTracker\<lparr> symbolDrivers := [classVar \<mapsto> []] \<rparr>) classVar = [] \<and>
   classVar \<notin> fst ` set (modportPortDrivers (emptyTracker\<lparr> symbolDrivers := [classVar \<mapsto> []] \<rparr>))"
proof -
  have c: "isClass classVar" by (simp add: classVar_def)
  from class_symbol_holds_no_driver[OF c, of plainEnv "[]" "combDriver classVar" "(0, 0)" emptyTracker
         "emptyTracker\<lparr> symbolDrivers := [classVar \<mapsto> []] \<rparr>"]
    classVar_state_reachable c
  show ?thesis by simp
qed

text \<open>
  The claim as it was stated says that a symbol of class type never appears as a key of the
  symbol driver map. After the assignment to \<open>c\<close> the map has the key \<open>c\<close>, with an empty
  interval map.
\<close>

theorem class_symbol_becomes_a_key:
  "isClass classVar \<and>
   (\<exists>st. add_expression plainEnv (nameOf classVar) topScope emptyTracker = Inr st \<and>
         classVar \<in> dom (symbolDrivers st))"
  by (simp add: add_expression_classVar) (simp add: classVar_def)

subsection \<open>\<open>getDrivers\<close> on modport ports\<close>

lemma add_expression_mpZ:
  "add_expression modportEnv (assignTo mpZ 160) topScope emptyTracker = Inr pendingZ"
proof -
  have v: "visitLSPs modportEnv (assignTo mpZ 160) topScope None = [(mpZ, assignTo mpZ 160, True)]"
    by (simp add: modportEnv_def plainEnv_def assignTo_def)
  have e: "symbolDrivers emptyTracker mpZ = None" "modportPortDrivers emptyTracker = []"
    by (simp_all add: emptyTracker_def)
  show ?thesis
    by (simp add: add_expression_def addDrivers_def addDrivers_visit_def v modportEnv_bounds
        symbolDrivers_visit_def addDriver_modport mp_facts e pendingZ_def
        try_emplace_and_visit_def)
       (simp add: emptyTracker_def)
qed

text \<open>
  Claim C10. \<open>getDrivers\<close> is a total function that returns a list. For a symbol without
  entry in \<open>symbolDrivers\<close> the list is empty; for a modport port it is empty in every
  reachable state, also when drivers were recorded against the port: they wait in
  \<open>modportPortDrivers\<close>.
\<close>

theorem modport_port_has_no_stored_driver:
  "(symbolDrivers st symbol = None \<longrightarrow> getDrivers st symbol = []) \<and>
   (reachable env st \<longrightarrow> kind symbol = ModportPort \<longrightarrow> getDrivers st symbol = [])"
proof
  show "symbolDrivers st symbol = None \<longrightarrow> getDrivers st symbol = []"
    by (simp add: getDrivers_def)
next
  show "reachable env st \<longrightarrow> kind symbol = ModportPort \<longrightarrow> getDrivers st symbol = []"
  proof (intro impI)
    assume "reachable env st" and "kind symbol = ModportPort"
    then have "trackerInv st" "holdsNoDrivers symbol"
      by (simp_all add: reachable_inv holdsNoDrivers_def)
    then show "getDrivers st symbol = []" by (rule trackerInvD1)
  qed
qed

text \<open>
  In the empty tracker the port \<open>z\<close> has no entry. After \<open>assign z = ...;\<close> the driver is in
  the modport table and \<open>getDrivers\<close> still returns nothing for \<open>z\<close>.
\<close>

theorem modport_port_has_no_stored_driver_witness:
  "symbolDrivers emptyTracker mpZ = None \<and> getDrivers emptyTracker mpZ = [] \<and>
   reachable modportEnv pendingZ \<and> kind mpZ = ModportPort \<and>
   map fst (modportPortDrivers pendingZ) = [mpZ] \<and> getDrivers pendingZ mpZ = []"
proof -
  have r: "reachable modportEnv pendingZ"
    by (rule reach_expression[OF reach_empty add_expression_mpZ])
  have e: "symbolDrivers emptyTracker mpZ = None" by (simp add: emptyTracker_def)
  from modport_port_has_no_stored_driver[of emptyTracker mpZ modportEnv]
       modport_port_has_no_stored_driver[of pendingZ mpZ modportEnv] r e
  show ?thesis by (simp add: mp_facts pendingZ_def)
qed

subsection \<open>Drivers from ports\<close>

text \<open>A driver that is stored for a symbol stays stored, whatever is added afterwards.\<close>

lemma addDriver_keeps:
  assumes "addDriver env symbol driverMap driver bounds st = Inr (r, driverMap', st')"
  shows "set driverMap \<subseteq> set driverMap'"
proof (cases "isClass symbol")
  case True
  with assms show ?thesis by (simp add: addDriver_class)
next
  case False
  show ?thesis
  proof (cases "kind symbol = ModportPort")
    case True
    with assms \<open>\<not> isClass symbol\<close> show ?thesis by (auto simp: addDriver_modport)
  next
    case False
    obtain ds where
      "overlapReports env symbol driver bounds (preparedMap symbol driverMap) = Inr ds"
      using overlapReports_total by blast
    with assms \<open>\<not> isClass symbol\<close> False
    have "driverMap' = preparedMap symbol driverMap @ [(bounds, driver)]"
      by (auto simp: addDriver_stored)
    then show ?thesis by (auto simp: preparedMap_def)
  qed
qed

lemma addDriver_stores:
  assumes "addDriver env symbol driverMap driver bounds st = Inr (r, driverMap', st')"
    and "\<not> isClass symbol" "kind symbol \<noteq> ModportPort"
  shows "(bounds, driver) \<in> set driverMap'"
proof -
  obtain ds where
    "overlapReports env symbol driver bounds (preparedMap symbol driverMap) = Inr ds"
    using overlapReports_total by blast
  with assms show ?thesis by (auto simp: addDriver_stored)
qed

lemma visit_stays:
  assumes "x \<in> set (getDrivers st s)"
    and "symbolDrivers_visit symbol (\<lambda>dm s. addDriver env symbol dm driver bounds s) st = Inr (r, st')"
  shows "x \<in> set (getDrivers st' s)"
proof -
  let ?dm = "case symbolDrivers st symbol of None \<Rightarrow> [] | Some m \<Rightarrow> m"
  obtain r0 dm' st0 where a: "addDriver env symbol ?dm driver bounds st = Inr (r0, dm', st0)"
    using addDriver_total by blast
  with assms(2) have e: "st' = st0\<lparr>symbolDrivers := (symbolDrivers st0)(symbol \<mapsto> dm')\<rparr>"
    by (simp add: symbolDrivers_visit_def)
  from addDriver_frame[OF a] have f: "symbolDrivers st0 = symbolDrivers st" by simp
  show ?thesis
  proof (cases "s = symbol")
    case True
    from assms(1) True have "x \<in> (\<lambda>e. (snd e, fst e)) ` set ?dm"
      by (auto simp: getDrivers_def split: option.splits)
    with addDriver_keeps[OF a] have "x \<in> (\<lambda>e. (snd e, fst e)) ` set dm'" by blast
    with True e show ?thesis by (simp add: getDrivers_def)
  next
    case False
    with assms(1) e f show ?thesis by (simp add: getDrivers_def)
  qed
qed

lemma visit_stores:
  assumes "symbolDrivers_visit symbol (\<lambda>dm s. addDriver env symbol dm driver bounds s) st = Inr (r, st')"
    and "\<not> isClass symbol" "kind symbol \<noteq> ModportPort"
  shows "(driver, bounds) \<in> set (getDrivers st' symbol)"
proof -
  let ?dm = "case symbolDrivers st symbol of None \<Rightarrow> [] | Some m \<Rightarrow> m"
  obtain r0 dm' st0 where a: "addDriver env symbol ?dm driver bounds st = Inr (r0, dm', st0)"
    using addDriver_total by blast
  with assms(1) have e: "st' = st0\<lparr>symbolDrivers := (symbolDrivers st0)(symbol \<mapsto> dm')\<rparr>"
    by (simp add: symbolDrivers_visit_def)
  from addDriver_stores[OF a assms(2,3)] e show ?thesis
    by (force simp: getDrivers_def)
qed

lemma apply_stays:
  assumes "x \<in> set (getDrivers st s)" and "applyInstanceSideEffect env ipd inst st = Inr st'"
  shows "x \<in> set (getDrivers st' s)"
proof (cases "retargetIfacePort env (fst ipd) inst")
  case None
  with assms show ?thesis by (simp add: applyInstanceSideEffect_def)
next
  case (Some valueSym)
  let ?driver = "(snd ipd)\<lparr> containingSymbol := asSymbol inst, isFromSideEffect := True \<rparr>"
  show ?thesis
  proof (cases "getBounds env (prefixExpression ?driver) (asSymbol inst) valueSym")
    case None
    with assms Some show ?thesis by (simp add: applyInstanceSideEffect_def Let_def)
  next
    case (Some bounds)
    with assms(2) \<open>retargetIfacePort env (fst ipd) inst = Some valueSym\<close>
    obtain r where
      "symbolDrivers_visit valueSym (\<lambda>dm s. addDriver env valueSym dm ?driver bounds s) st = Inr (r, st')"
      by (auto simp: applyInstanceSideEffect_def Let_def split: sum.splits if_splits)
    from visit_stays[OF assms(1) this] show ?thesis .
  qed
qed

lemma getDrivers_instanceMap [simp]: "getDrivers (st\<lparr>instanceMap := im\<rparr>) s = getDrivers st s"
  by (simp add: getDrivers_def)

lemma note_stays:
  "x \<in> set (getDrivers st s) \<Longrightarrow> noteInterfacePortDriver env ref driver st = Inr st' \<Longrightarrow>
   x \<in> set (getDrivers st' s)"
proof (induction env ref driver st arbitrary: st' rule: noteInterfacePortDriver.induct)
  case (1 env ref driver st)
  let ?im = "try_emplace_and_visit (portScope ref) emptyInstanceState
               (\<lambda>state. state\<lparr> ifacePortDrivers := ifacePortDrivers state @ [(ref, driver)] \<rparr>)
               (instanceMap st)"
  let ?nc = "case map_of ?im (portScope ref) of None \<Rightarrow> [] | Some state \<Rightarrow> nonCanonicalInstances state"
  note eq = "1.prems"(2)[unfolded noteInterfacePortDriver.simps[of env ref driver st]]
  from eq have ok: "\<not> (\<not> isViaIfacePort ref \<or> target ref = None \<or> \<not> hasExpr ref)"
      "\<not> kind (portScope ref) \<noteq> InstanceBody"
    by (auto split: if_splits)
  from ok have ok': "isViaIfacePort ref" "target ref \<noteq> None" "hasExpr ref"
      "kind (portScope ref) = InstanceBody"
    by auto
  from eq have eq2:
    "(case foldF (\<lambda>inst. applyInstanceSideEffect env (ref, driver) inst) ?nc (st\<lparr> instanceMap := ?im \<rparr>) of
        Inl f \<Rightarrow> Inl f
      | Inr st' \<Rightarrow>
          (case portConnection ref of
             None \<Rightarrow> Inr st'
           | Some connRef \<Rightarrow>
               if isViaIfacePort connRef
               then noteInterfacePortDriver env (join connRef ref) driver st'
               else Inr st')) = Inr st'"
    by (simp add: ok' Let_def)
  then obtain st1 where
    f: "foldF (\<lambda>inst. applyInstanceSideEffect env (ref, driver) inst) ?nc (st\<lparr> instanceMap := ?im \<rparr>) = Inr st1"
    by (auto split: sum.splits)
  have k1: "x \<in> set (getDrivers st1 s)"
    by (rule foldF_inv[where P = "\<lambda>st. x \<in> set (getDrivers st s)", OF _ _ f])
       (erule apply_stays, assumption, simp add: "1.prems"(1))
  show ?case
  proof (cases "portConnection ref")
    case None
    with eq2 f have "st' = st1" by simp
    with k1 show ?thesis by simp
  next
    case (Some connRef)
    show ?thesis
    proof (cases "isViaIfacePort connRef")
      case False
      with eq2 f Some have "st' = st1" by simp
      with k1 show ?thesis by simp
    next
      case True
      with eq2 f Some
      have r: "noteInterfacePortDriver env (join connRef ref) driver st1 = Inr st'"
        by simp
      from "1.IH"[OF ok refl refl f Some True k1 r] show ?thesis .
    qed
  qed
qed

lemma addDrivers_visit_stays:
  assumes "x \<in> set (getDrivers (snd acc) s)" and "addDrivers_visit env k fl c v acc = Inr acc'"
  shows "x \<in> set (getDrivers (snd acc') s)"
proof -
  obtain symbol lsp isLValue where v: "v = (symbol, lsp, isLValue)" by (cases v) auto
  obtain refs st where acc: "acc = (refs, st)" by (cases acc) auto
  obtain refs' st' where acc': "acc' = (refs', st')" by (cases acc') auto
  have skip: ?thesis
    if "addDrivers_visit env k fl c (symbol, lsp, isLValue) acc = Inr acc"
    using that assms v by auto
  show ?thesis
  proof (cases isLValue)
    case False
    then show ?thesis by (intro skip addDrivers_visit_skip) simp
  next
    case lv: True
    show ?thesis
    proof (cases "getBounds env lsp c symbol")
      case None
      then show ?thesis by (intro skip addDrivers_visit_skip) simp
    next
      case b: (Some bounds)
      from assms(2)[unfolded v acc acc' addDrivers_visit_add[OF lv b]] obtain r where
        vis: "symbolDrivers_visit symbol
                (\<lambda>dm s. addDriver env symbol dm (newValueDriver k lsp c fl) bounds s) st
                = Inr (r, st')"
        by (auto split: sum.splits)
      from visit_stays[OF _ vis] assms(1) acc acc' show ?thesis by simp
    qed
  qed
qed

lemma addDrivers_visit_stores:
  assumes "addDrivers_visit env k fl c (symbol, lsp, True) acc = Inr acc'"
    and "getBounds env lsp c symbol = Some bounds" "\<not> isClass symbol" "kind symbol \<noteq> ModportPort"
  shows "(newValueDriver k lsp c fl, bounds) \<in> set (getDrivers (snd acc') symbol)"
proof -
  obtain refs st where acc: "acc = (refs, st)" by (cases acc) auto
  obtain refs' st' where acc': "acc' = (refs', st')" by (cases acc') auto
  from assms(1)[unfolded acc acc' addDrivers_visit_add[OF TrueI assms(2)]] obtain r where
    vis: "symbolDrivers_visit symbol
            (\<lambda>dm s. addDriver env symbol dm (newValueDriver k lsp c fl) bounds s) st
            = Inr (r, st')"
    by (auto split: sum.splits)
  from visit_stores[OF vis assms(3,4)] acc' show ?thesis by simp
qed

lemma foldF_reaches:
  assumes stays: "\<And>x s s'. P s \<Longrightarrow> f x s = Inr s' \<Longrightarrow> P s'"
    and sets: "\<And>s s'. f v s = Inr s' \<Longrightarrow> P s'"
    and "v \<in> set xs" and "foldF f xs s = Inr s'"
  shows "P s'"
  using assms(3,4)
proof (induction xs arbitrary: s)
  case Nil
  then show ?case by simp
next
  case (Cons x xs)
  from Cons.prems(2) obtain s1 where s1: "f x s = Inr s1" "foldF f xs s1 = Inr s'"
    by (auto split: sum.splits)
  show ?case
  proof (cases "v = x")
    case True
    with sets s1(1) have "P s1" by simp
    from foldF_inv[where P = P, OF stays this s1(2)] show ?thesis .
  next
    case False
    with Cons.prems(1) have "v \<in> set xs" by simp
    from Cons.IH[OF this s1(2)] show ?thesis .
  qed
qed

lemma addDrivers_stores:
  assumes "addDrivers env expr k fl c i st = Inr st'"
    and "(symbol, lsp, True) \<in> set (visitLSPs env expr c i)"
    and "getBounds env lsp c symbol = Some bounds" "\<not> isClass symbol" "kind symbol \<noteq> ModportPort"
  shows "(newValueDriver k lsp c fl, bounds) \<in> set (getDrivers st' symbol)"
proof -
  let ?x = "(newValueDriver k lsp c fl, bounds)"
  from assms(1) obtain refs st1 where
    p1: "foldF (addDrivers_visit env k fl c) (visitLSPs env expr c i) ([], st) = Inr (refs, st1)"
    and p2: "foldF (\<lambda>rd. noteInterfacePortDriver env (fst rd) (snd rd)) refs st1 = Inr st'"
    by (auto simp: addDrivers_def split: sum.splits)
  have "?x \<in> set (getDrivers (snd (refs, st1)) symbol)"
  proof (rule foldF_reaches[where P = "\<lambda>acc. ?x \<in> set (getDrivers (snd acc) symbol)",
        OF _ _ assms(2) p1])
    fix v acc acc'
    assume "?x \<in> set (getDrivers (snd acc) symbol)" "addDrivers_visit env k fl c v acc = Inr acc'"
    then show "?x \<in> set (getDrivers (snd acc') symbol)" by (rule addDrivers_visit_stays)
  next
    fix acc acc'
    assume "addDrivers_visit env k fl c (symbol, lsp, True) acc = Inr acc'"
    from addDrivers_visit_stores[OF this assms(3,4,5)]
    show "?x \<in> set (getDrivers (snd acc') symbol)" .
  qed
  then have "?x \<in> set (getDrivers st1 symbol)" by simp
  show ?thesis
    by (rule foldF_inv[where P = "\<lambda>st. ?x \<in> set (getDrivers st symbol)", OF _ _ p2])
       (erule note_stays, assumption, fact)
qed

lemma add_port_eq:
  "add_port env symbol st =
     (if direction symbol = In \<or> direction symbol = InOut
      then (case internalTarget symbol of
              None \<Rightarrow> Inr st
            | Some e \<Rightarrow>
                addDrivers env e Continuous (if direction symbol = In then {InputPort} else {})
                  (portParentScope symbol) None st)
      else Inr st)"
  by (simp add: add_port_def internalTarget_def Let_def split: option.splits)

text \<open>
  Claim C8, as it holds. \<open>add(port)\<close> leaves the tracker as it is unless the direction of
  the port is \<open>In\<close> or \<open>InOut\<close>. Otherwise it hands what the port drives to \<open>addDrivers\<close>,
  as a continuous driver owned by the parent scope of the port, with the flag \<open>InputPort\<close>
  exactly when the direction is \<open>In\<close>; so every lvalue prefix that \<open>visitLSPs\<close> finds there,
  with known bounds, on a symbol that is neither of class type nor a modport port, has this
  driver stored for its symbol when \<open>add(port)\<close> returns. A port without internal expression
  but with an internal symbol drives a reference by name to that symbol, and the source
  range of the reference starts at the location of the symbol and ends after its name: it
  has the length of the name, not the length zero.
\<close>

theorem add_port_drives_internal:
  "add_port env symbol st =
     (if direction symbol = In \<or> direction symbol = InOut
      then (case internalTarget symbol of
              None \<Rightarrow> Inr st
            | Some e \<Rightarrow>
                addDrivers env e Continuous (if direction symbol = In then {InputPort} else {})
                  (portParentScope symbol) None st)
      else Inr st) \<and>
   (\<forall>is. internalExpr symbol = None \<longrightarrow> internalSymbol symbol = Some is \<longrightarrow>
      internalTarget symbol =
        Some (NamedValueExpression is
                \<lparr> startLoc = location is, endLoc = location is + length (name is) \<rparr>)) \<and>
   (\<forall>e s lsp b st'.
      direction symbol = In \<or> direction symbol = InOut \<longrightarrow>
      internalTarget symbol = Some e \<longrightarrow>
      (s, lsp, True) \<in> set (visitLSPs env e (portParentScope symbol) None) \<longrightarrow>
      getBounds env lsp (portParentScope symbol) s = Some b \<longrightarrow>
      \<not> isClass s \<longrightarrow> kind s \<noteq> ModportPort \<longrightarrow>
      add_port env symbol st = Inr st' \<longrightarrow>
      (newValueDriver Continuous lsp (portParentScope symbol)
         (if direction symbol = In then {InputPort} else {}), b) \<in> set (getDrivers st' s))"
proof (intro conjI allI impI)
  show "add_port env symbol st =
     (if direction symbol = In \<or> direction symbol = InOut
      then (case internalTarget symbol of
              None \<Rightarrow> Inr st
            | Some e \<Rightarrow>
                addDrivers env e Continuous (if direction symbol = In then {InputPort} else {})
                  (portParentScope symbol) None st)
      else Inr st)" by (rule add_port_eq)
next
  fix "is" assume "internalExpr symbol = None" "internalSymbol symbol = Some is"
  then show "internalTarget symbol =
        Some (NamedValueExpression is
                \<lparr> startLoc = location is, endLoc = location is + length (name is) \<rparr>)"
    by (simp add: internalTarget_def)
next
  fix e s lsp b st'
  assume d: "direction symbol = In \<or> direction symbol = InOut"
    and t: "internalTarget symbol = Some e"
    and v: "(s, lsp, True) \<in> set (visitLSPs env e (portParentScope symbol) None)"
    and g: "getBounds env lsp (portParentScope symbol) s = Some b"
    and c: "\<not> isClass s" "kind s \<noteq> ModportPort"
    and a: "add_port env symbol st = Inr st'"
  from a d t have "addDrivers env e Continuous (if direction symbol = In then {InputPort} else {})
                  (portParentScope symbol) None st = Inr st'"
    by (simp add: add_port_eq)
  from addDrivers_stores[OF this v g c]
  show "(newValueDriver Continuous lsp (portParentScope symbol)
         (if direction symbol = In then {InputPort} else {}), b) \<in> set (getDrivers st' s)" .
qed

text \<open>
  The input port of \<open>w\<close> stores its driver, flagged \<open>InputPort\<close>, for \<open>w\<close>; the output
  port of \<open>w\<close> records nothing.
\<close>

lemma port_facts:
  "direction inputPortW = In" "internalExpr inputPortW = None"
  "internalSymbol inputPortW = Some varW" "portParentScope inputPortW = topScope"
  "direction outputPortW = Out" "internalTarget inputPortW = Some (nameOf varW)"
  "location varW = 35" "name varW = ''w''"
  by (simp_all add: inputPortW_def outputPortW_def internalTarget_def nameOf_def varW_def)

lemma nameOf_varW: "nameOf varW = NamedValueExpression varW \<lparr> startLoc = 35, endLoc = 36 \<rparr>"
  by (simp add: nameOf_def varW_def)

lemma add_inputPortW:
  "add_port plainEnv inputPortW emptyTracker =
     Inr (emptyTracker
            \<lparr> symbolDrivers :=
                [varW \<mapsto> [((0, 7), newValueDriver Continuous (nameOf varW) topScope {InputPort})]] \<rparr>)"
proof -
  let ?d = "newValueDriver Continuous (nameOf varW) topScope {InputPort}"
  have p: "preparedMap varW [] = []" by (simp add: preparedMap_def mp_facts)
  have "addDriver plainEnv varW [] ?d (0, 7) emptyTracker
    = Inr (if isFromSideEffect ?d then None else ifacePortScan (prefixExpression ?d),
           preparedMap varW [] @ [((0, 7), ?d)],
           emptyTracker\<lparr>diags := diags emptyTracker @ []\<rparr>)"
    by (rule addDriver_stored) (simp_all add: mp_facts p)
  then show ?thesis
    by (simp add: add_port_def port_facts addDrivers_def addDrivers_visit_def
        plainEnv_visit nameOf_varW plainEnv_bounds Let_def
        symbolDrivers_visit_def p mp_facts emptyTracker_def)
qed

theorem add_port_drives_internal_witness:
  "direction inputPortW = In \<and> internalExpr inputPortW = None \<and>
   internalSymbol inputPortW = Some varW \<and>
   internalTarget inputPortW =
     Some (NamedValueExpression varW \<lparr> startLoc = 35, endLoc = 36 \<rparr>) \<and>
   (\<exists>st'. add_port plainEnv inputPortW emptyTracker = Inr st' \<and>
          (newValueDriver Continuous (nameOf varW) topScope {InputPort}, (0, 7))
            \<in> set (getDrivers st' varW)) \<and>
   direction outputPortW = Out \<and>
   add_port plainEnv outputPortW emptyTracker = Inr emptyTracker"
proof -
  let ?st = "emptyTracker
            \<lparr> symbolDrivers :=
                [varW \<mapsto> [((0, 7), newValueDriver Continuous (nameOf varW) topScope {InputPort})]] \<rparr>"
  note t = add_port_drives_internal[of plainEnv inputPortW emptyTracker]
  from t have r: "internalTarget inputPortW =
        Some (NamedValueExpression varW
                \<lparr> startLoc = location varW, endLoc = location varW + length (name varW) \<rparr>)"
    by (simp add: port_facts)
  from t have
    "direction inputPortW = In \<or> direction inputPortW = InOut \<longrightarrow>
      internalTarget inputPortW = Some (nameOf varW) \<longrightarrow>
      (varW, nameOf varW, True)
        \<in> set (visitLSPs plainEnv (nameOf varW) (portParentScope inputPortW) None) \<longrightarrow>
      getBounds plainEnv (nameOf varW) (portParentScope inputPortW) varW = Some (0, 7) \<longrightarrow>
      \<not> isClass varW \<longrightarrow> kind varW \<noteq> ModportPort \<longrightarrow>
      add_port plainEnv inputPortW emptyTracker = Inr ?st \<longrightarrow>
      (newValueDriver Continuous (nameOf varW) (portParentScope inputPortW)
         (if direction inputPortW = In then {InputPort} else {}), (0, 7))
        \<in> set (getDrivers ?st varW)"
    by blast
  then have m: "(newValueDriver Continuous (nameOf varW) topScope {InputPort}, (0, 7))
        \<in> set (getDrivers ?st varW)"
    by (simp add: port_facts plainEnv_visit nameOf_varW plainEnv_bounds
        mp_facts add_inputPortW[unfolded nameOf_varW])
  from add_port_drives_internal[of plainEnv outputPortW emptyTracker]
  have o: "add_port plainEnv outputPortW emptyTracker = Inr emptyTracker"
    by (simp add: port_facts)
  from r m o add_inputPortW show ?thesis
    by (simp add: port_facts nameOf_varW)
qed

text \<open>
  The variable \<open>w\<close> is declared at location 35 and its name has one character: the
  reference that the input port drives spans 35 to 36.
\<close>

theorem input_port_reference_spans_the_name:
  "internalExpr inputPortW = None \<and> internalSymbol inputPortW = Some varW \<and>
   location varW = 35 \<and> name varW = ''w'' \<and>
   outcome (add_port plainEnv inputPortW emptyTracker) varW =
     Inr ([(newValueDriver Continuous
              (NamedValueExpression varW \<lparr> startLoc = 35, endLoc = 36 \<rparr>) topScope {InputPort},
            (0, 7))], [])"
  by (simp add: port_facts add_inputPortW outcome_def getDrivers_def)
     (simp add: emptyTracker_def nameOf_varW)

subsection \<open>Submitting a procedure's driver list twice\<close>
























end
